theory Spec2Isabelle
  imports Complex_Main "HOL-Library.Multiset"
begin

section \<open>Floats and text\<close>

text \<open>
  The columns of SQL type Float (balances, prices, amounts, averages) hold values of a
  type \<open>'f\<close> that is left open, and the floating-point operations the code applies to them
  are the fields of a record that every operation takes as its first argument. Nothing
  is assumed about rounding, infinities or NaN: a property proved for all \<open>'f float_ops\<close>
  holds of the doubles of Python and of the database.
\<close>

record 'f float_ops =
  fl_zero :: 'f                           \<comment> \<open>the literal 0.0\<close>
  fl_hundred :: 'f                        \<comment> \<open>the literal 100.0\<close>
  fl_less :: "'f \<Rightarrow> 'f \<Rightarrow> bool"          \<comment> \<open>\<^verbatim>\<open>a < b\<close>, which is also \<^verbatim>\<open>b > a\<close>\<close>
  fl_truthy :: "'f \<Rightarrow> bool"              \<comment> \<open>\<^verbatim>\<open>bool(a)\<close>, as tested by \<^verbatim>\<open>a or 0.0\<close>\<close>
  fl_sub :: "'f \<Rightarrow> 'f \<Rightarrow> 'f"             \<comment> \<open>\<^verbatim>\<open>a - b\<close>\<close>
  fl_mul :: "'f \<Rightarrow> 'f \<Rightarrow> 'f"             \<comment> \<open>\<^verbatim>\<open>a * b\<close>\<close>
  fl_of_int :: "int \<Rightarrow> 'f option"        \<comment> \<open>an int operand converted to float; \<open>None\<close> is OverflowError\<close>
  fl_sum :: "'f list \<Rightarrow> 'f"               \<comment> \<open>SQL \<^verbatim>\<open>SUM\<close> over the values of one or more rows\<close>
  fl_pysum :: "'f list \<Rightarrow> 'f"             \<comment> \<open>the built-in \<^verbatim>\<open>sum\<close> of one or more floats\<close>

text \<open>
  Text that the code measures, slices, splits or lowercases is a list of Unicode code
  points. \<^verbatim>\<open>str.lower\<close> and \<^verbatim>\<open>str.isspace\<close> (which \<^verbatim>\<open>split()\<close>, \<^verbatim>\<open>strip()\<close> and the
  whitespace class of regular expressions all use) are tables of the Unicode database; they are the
  fields of a record that the text operations take as an argument. Strings that are only
  stored and compared with literals (roles, statuses, decisions) are byte strings.
\<close>

type_synonym utext = "nat list"

record unicode =
  u_lower :: "utext \<Rightarrow> utext"               \<comment> \<open>\<^verbatim>\<open>s.lower()\<close>\<close>
  u_isspace :: "nat \<Rightarrow> bool"              \<comment> \<open>\<^verbatim>\<open>c.isspace()\<close> for one code point\<close>

text \<open>The code points of an ASCII literal.\<close>

definition codes :: "string \<Rightarrow> utext" where
  "codes s = map of_char s"

section \<open>The relational store (models.py)\<close>

text \<open>
  Every table of \<^verbatim>\<open>models.py\<close> that the rule engine reads or writes is a list of
  rows in insertion order; the \<^verbatim>\<open>users\<close> table, which is only ever read by primary
  key, is a map from the key to the row. Columns that no modelled operation reads
  (names, e-mail addresses, password hashes, creation times) are left out.
\<close>

record 'f user =
  role :: string
  balance :: 'f
  is_active :: bool

record 'f order =
  o_id :: nat
  o_customer_id :: nat
  o_delivery_person_id :: "nat option"
  o_status :: string
  o_total_amount :: 'f
  o_delivery_address :: utext
  o_notes :: utext

record 'f order_item =
  oi_order_id :: nat
  oi_menu_item_id :: nat
  oi_quantity :: int
  oi_subtotal :: 'f

record complaint =
  c_id :: nat
  c_filed_by_id :: nat
  c_filed_against_id :: nat
  c_order_id :: "nat option"
  c_description :: utext
  c_status :: string
  c_manager_decision :: "string option"
  c_manager_notes :: "utext option"
  c_reviewed_at :: "nat option"

record warning =
  w_user_id :: nat
  w_reason :: utext
  w_complaint_id :: "nat option"

record blacklist_entry =
  bl_user_id :: nat
  bl_reason :: string

record 'f delivery_bid =
  b_id :: nat
  b_order_id :: nat
  b_delivery_person_id :: nat
  b_amount :: "'f option"
  b_status :: string

record 'f knowledge_base_entry =
  kb_id :: nat
  kb_question :: utext
  kb_answer :: utext
  kb_rating :: 'f
  kb_rating_count :: nat
  kb_flagged :: bool

record ai_response_rating =
  r_id :: nat
  r_kb_entry_id :: "nat option"
  r_user_id :: "nat option"
  r_query :: utext
  r_response :: utext
  r_rating :: int
  r_source :: string

record 'f db =
  users :: "nat \<rightharpoonup> 'f user"
  orders :: "'f order list"
  order_items :: "'f order_item list"
  complaints :: "complaint list"
  warnings :: "warning list"
  blacklist :: "blacklist_entry list"
  delivery_bids :: "'f delivery_bid list"
  knowledge_base_entries :: "'f knowledge_base_entry list"
  ai_response_ratings :: "ai_response_rating list"

text \<open>Exceptions that leave a handler: the transaction is rolled back, the store stays
  as it was at the last commit.\<close>

datatype error = IntegrityError | AttributeError | OverflowError | NotFound

text \<open>The store after a request: the committed state, or the old one after an exception.\<close>

definition persisted :: "'f db \<Rightarrow> error + ('f db \<times> 'a) \<Rightarrow> 'f db" where
  "persisted s r = (case r of Inl e \<Rightarrow> s | Inr (s', x) \<Rightarrow> s')"

text \<open>A fresh primary key: one more than the largest key of the table.\<close>

definition next_id :: "nat list \<Rightarrow> nat" where
  "next_id ids = Suc (fold max ids 0)"

section \<open>The VIP promotion rule (utils.py, calculate_vip_status)\<close>

text \<open>
  \<^verbatim>\<open>func.sum(...).scalar()\<close> is \<^verbatim>\<open>None\<close> when no row matches and the database's sum of
  the column otherwise; \<^verbatim>\<open>x or 0.0\<close> replaces \<^verbatim>\<open>None\<close> and every float that counts as
  false by 0.0.
\<close>

definition sum_scalar :: "'f float_ops \<Rightarrow> 'f list \<Rightarrow> 'f option" where
  "sum_scalar ops column = (if column = [] then None else Some (fl_sum ops column))"

definition or_zero :: "'f float_ops \<Rightarrow> 'f option \<Rightarrow> 'f" where
  "or_zero ops x = (case x of None \<Rightarrow> fl_zero ops
                    | Some t \<Rightarrow> if fl_truthy ops t then t else fl_zero ops)"

definition set_role :: "'f db \<Rightarrow> nat \<Rightarrow> 'f user \<Rightarrow> string \<Rightarrow> 'f db" where
  "set_role s user_id u r = s\<lparr>users := (users s)(user_id \<mapsto> u\<lparr>role := r\<rparr>)\<rparr>"

definition calculate_vip_status :: "'f float_ops \<Rightarrow> 'f db \<Rightarrow> nat \<Rightarrow> 'f db \<times> bool" where
  "calculate_vip_status ops s user_id =
     (case users s user_id of
        None \<Rightarrow> (s, False)
      | Some u \<Rightarrow>
          if role u \<in> set [''Chef'', ''DeliveryPerson'', ''Manager''] then (s, False)
          else if role u = ''VIP'' then (s, True)
          else
            let total_spent =
                  or_zero ops (sum_scalar ops (map o_total_amount
                     (filter (\<lambda>x. o_customer_id x = user_id \<and> o_status x = ''Delivered'')
                             (orders s))))
            in
            if fl_less ops (fl_hundred ops) total_spent then (set_role s user_id u ''VIP'', True)
            else
              let delivered_orders =
                    filter (\<lambda>x. o_customer_id x = user_id \<and> o_status x = ''Delivered'') (orders s)
              in
              if length delivered_orders \<ge> 3 then
                let order_ids = map o_id delivered_orders;
                    approved_complaints =
                      length (filter (\<lambda>c. (case c_order_id c of None \<Rightarrow> False
                                                | Some i \<Rightarrow> i \<in> set order_ids)
                                            \<and> c_status c = ''Approved'') (complaints s))
                in if approved_complaints = 0 then (set_role s user_id u ''VIP'', True)
                   else (s, False)
              else (s, False))"

section \<open>The escalation rule (utils.py, process_complaint_decision)\<close>

text \<open>
  The session flushes the new Warning before the count query runs, so the count
  includes it. The Blacklist row is inserted at the commit; the column
  \<^verbatim>\<open>Blacklist.user_id\<close> is declared unique, so the insert of a second row for the
  same account raises IntegrityError there and the whole transaction is rolled back.
  Reading a field of a filer that does not exist raises AttributeError.
  \<^verbatim>\<open>now\<close> stands for \<^verbatim>\<open>datetime.utcnow()\<close>.
\<close>

definition get_complaint :: "'f db \<Rightarrow> nat \<Rightarrow> complaint option" where
  "get_complaint s complaint_id = find (\<lambda>c. c_id c = complaint_id) (complaints s)"

definition stamp_complaint :: "nat \<Rightarrow> string \<Rightarrow> utext option \<Rightarrow> complaint \<Rightarrow> complaint" where
  "stamp_complaint now manager_decision manager_notes c =
     c\<lparr>c_status := (if manager_decision = ''Approved'' then ''Approved'' else ''Rejected''),
       c_manager_decision := Some manager_decision,
       c_manager_notes := manager_notes,
       c_reviewed_at := Some now\<rparr>"

definition warning_count :: "'f db \<Rightarrow> nat \<Rightarrow> nat" where
  "warning_count s user_id = length (filter (\<lambda>w. w_user_id w = user_id) (warnings s))"

definition process_complaint_decision ::
  "'f db \<Rightarrow> nat \<Rightarrow> nat \<Rightarrow> string \<Rightarrow> utext option \<Rightarrow> error + ('f db \<times> bool)" where
  "process_complaint_decision s now complaint_id manager_decision manager_notes =
     (case get_complaint s complaint_id of
        None \<Rightarrow> Inr (s, False)
      | Some complaint \<Rightarrow>
          let s1 = s\<lparr>complaints :=
                      map (\<lambda>c. if c_id c = complaint_id
                                then stamp_complaint now manager_decision manager_notes c
                                else c) (complaints s)\<rparr>
          in
          if manager_decision = ''Rejected'' then
            let new_warning =
                  \<lparr>w_user_id = c_filed_by_id complaint,
                   w_reason = codes ''Rejected complaint: '' @ take 100 (c_description complaint),
                   w_complaint_id = Some complaint_id\<rparr>;
                s2 = s1\<lparr>warnings := warnings s1 @ [new_warning]\<rparr>;
                count = warning_count s2 (c_filed_by_id complaint);
                filer = users s2 (c_filed_by_id complaint)
            in
            if count \<ge> 3 then
              (case filer of
                 None \<Rightarrow> Inl AttributeError
               | Some f \<Rightarrow>
                   if c_filed_by_id complaint \<in> set (map bl_user_id (blacklist s2))
                   then Inl IntegrityError
                   else Inr (s2\<lparr>blacklist := blacklist s2 @
                                   [\<lparr>bl_user_id = c_filed_by_id complaint,
                                     bl_reason = ''3 warnings issued for rejected complaints''\<rparr>],
                                 users := (users s2)(c_filed_by_id complaint \<mapsto>
                                                       f\<lparr>is_active := False\<rparr>)\<rparr>, True))
            else if count \<ge> 2 then
              (case filer of
                 None \<Rightarrow> Inl AttributeError
               | Some f \<Rightarrow>
                   if role f = ''VIP''
                   then Inr (s2\<lparr>users := (users s2)(c_filed_by_id complaint \<mapsto>
                                                       f\<lparr>role := ''Customer''\<rparr>)\<rparr>, True)
                   else Inr (s2, True))
            else Inr (s2, True)
          else Inr (s1, True))"

definition is_user_blacklisted :: "'f db \<Rightarrow> nat \<Rightarrow> bool" where
  "is_user_blacklisted s user_id = (find (\<lambda>e. bl_user_id e = user_id) (blacklist s) \<noteq> None)"

section \<open>The request handlers (app.py)\<close>

text \<open>
  A handler takes the store and the id of the account of the session and returns the new
  store and the message it flashes; \<^verbatim>\<open>get_or_404\<close> aborts with NotFound. The messages
  are a datatype; \<open>category\<close> gives the category string passed to \<^verbatim>\<open>flash\<close>.
\<close>

datatype flash =
    LoginRequired           \<comment> \<open>Please log in to access this page.\<close>
  | PermissionDenied        \<comment> \<open>You do not have permission to access this page.\<close>
  | BlacklistedMsg          \<comment> \<open>You are blacklisted and cannot place orders.\<close>
  | NotActiveMsg            \<comment> \<open>Your account is not active.\<close>
  | CartEmpty               \<comment> \<open>Your cart is empty.\<close>
  | InsufficientBalance     \<comment> \<open>Insufficient balance. Please deposit money first.\<close>
  | OrderPlaced nat         \<comment> \<open>Order #n placed successfully!\<close>
  | StatusUpdated string    \<comment> \<open>Order status updated to ...\<close>
  | NoUpdatePermission      \<comment> \<open>You do not have permission to update this order.\<close>
  | OrderAssigned           \<comment> \<open>Order assigned successfully.\<close>
  | AlreadyAssigned         \<comment> \<open>This order already has a delivery person assigned.\<close>
  | BidPlaced               \<comment> \<open>Bid placed successfully!\<close>
  | ComplaintReviewed string \<comment> \<open>Complaint ...ed.\<close>


text \<open>
  \<^verbatim>\<open>@login_required\<close>: \<^verbatim>\<open>load_user\<close> fetches the account of the session by its id, and
  the request goes on when that account is authenticated. \<^verbatim>\<open>User\<close> takes
  \<^verbatim>\<open>is_authenticated\<close> from \<^verbatim>\<open>UserMixin\<close>, where it is the account's \<^verbatim>\<open>is_active\<close>,
  here the column of that name: a deactivated account is sent to the login page.
\<close>

definition login_required :: "'f db \<Rightarrow> nat \<Rightarrow> 'f user option" where
  "login_required s uid =
     (case users s uid of
        None \<Rightarrow> None
      | Some u \<Rightarrow> if is_active u then Some u else None)"

text \<open>The pair returned by \<^verbatim>\<open>can_user_place_order\<close> is \<open>(True, None)\<close> or \<open>(False, message)\<close>:
  the model returns \<open>None\<close> for the first and the message for the second.\<close>

definition can_user_place_order :: "'f db \<Rightarrow> nat \<Rightarrow> flash option" where
  "can_user_place_order s user_id =
     (if is_user_blacklisted s user_id then Some BlacklistedMsg
      else (case users s user_id of
              None \<Rightarrow> Some NotActiveMsg
            | Some u \<Rightarrow> if \<not> is_active u then Some NotActiveMsg else None))"

text \<open>The session cart: menu id, unit price and quantity of each entry, in the order of
  the dictionary. The price is a float and the quantity an int of any size.\<close>

record 'f cart_item =
  ci_price :: 'f
  ci_quantity :: int

type_synonym 'f cart = "(nat \<times> 'f cart_item) list"

text \<open>\<^verbatim>\<open>item['price'] * item['quantity']\<close>: the int is converted to a float, which raises
  OverflowError when it is too large, and the two floats are multiplied.\<close>

definition line_total :: "'f float_ops \<Rightarrow> 'f cart_item \<Rightarrow> error + 'f" where
  "line_total ops item =
     (case fl_of_int ops (ci_quantity item) of
        None \<Rightarrow> Inl OverflowError
      | Some q \<Rightarrow> Inr (fl_mul ops (ci_price item) q))"

text \<open>\<^verbatim>\<open>sum(... for item in cart.values())\<close>: the products are computed in the order
  of the cart, the first that fails ends the request, and the built-in \<^verbatim>\<open>sum\<close> adds
  them. The cart is not empty where the total is computed.\<close>

fun line_totals :: "'f float_ops \<Rightarrow> 'f cart \<Rightarrow> error + 'f list" where
  "line_totals ops [] = Inr []"
| "line_totals ops ((menu_id, item) # rest) =
     (case line_total ops item of
        Inl e \<Rightarrow> Inl e
      | Inr x \<Rightarrow> (case line_totals ops rest of
                   Inl e \<Rightarrow> Inl e
                 | Inr xs \<Rightarrow> Inr (x # xs)))"

definition cart_total :: "'f float_ops \<Rightarrow> 'f cart \<Rightarrow> error + 'f" where
  "cart_total ops cart =
     (case line_totals ops cart of
        Inl e \<Rightarrow> Inl e
      | Inr xs \<Rightarrow> Inr (fl_pysum ops xs))"

text \<open>The loop that creates the line items of the new order.\<close>

fun order_lines :: "'f float_ops \<Rightarrow> nat \<Rightarrow> 'f cart \<Rightarrow> error + 'f order_item list" where
  "order_lines ops order_id [] = Inr []"
| "order_lines ops order_id ((menu_id, item) # rest) =
     (case line_total ops item of
        Inl e \<Rightarrow> Inl e
      | Inr x \<Rightarrow>
          (case order_lines ops order_id rest of
             Inl e \<Rightarrow> Inl e
           | Inr lines \<Rightarrow>
               Inr (\<lparr>oi_order_id = order_id, oi_menu_item_id = menu_id,
                     oi_quantity = ci_quantity item, oi_subtotal = x\<rparr> # lines)))"

definition place_order ::
  "'f float_ops \<Rightarrow> 'f db \<Rightarrow> nat \<Rightarrow> 'f cart \<Rightarrow> utext \<Rightarrow> utext
     \<Rightarrow> error + ('f db \<times> 'f cart \<times> flash)" where
  "place_order ops s uid cart delivery_address notes =
     (case login_required s uid of
        None \<Rightarrow> Inr (s, cart, LoginRequired)
      | Some current_user \<Rightarrow>
          if role current_user \<notin> set [''Customer'', ''VIP'']
          then Inr (s, cart, PermissionDenied)
          else
            (case can_user_place_order s uid of
              Some error_msg \<Rightarrow> Inr (s, cart, error_msg)
            | None \<Rightarrow>
                if cart = [] then Inr (s, cart, CartEmpty)
                else
                  (case cart_total ops cart of
                     Inl e \<Rightarrow> Inl e
                   | Inr total_price \<Rightarrow>
                       if fl_less ops (balance current_user) total_price
                       then Inr (s, cart, InsufficientBalance)
                       else
                         let order_id = next_id (map o_id (orders s));
                             new_order = \<lparr>o_id = order_id, o_customer_id = uid,
                                          o_delivery_person_id = None, o_status = ''Pending'',
                                          o_total_amount = total_price,
                                          o_delivery_address = delivery_address,
                                          o_notes = notes\<rparr>
                         in
                         (case order_lines ops order_id cart of
                            Inl e \<Rightarrow> Inl e
                          | Inr new_items \<Rightarrow>
                              let s1 = s\<lparr>orders := orders s @ [new_order],
                                         order_items := order_items s @ new_items,
                                         users := (users s)(uid \<mapsto>
                                           current_user\<lparr>balance :=
                                             fl_sub ops (balance current_user) total_price\<rparr>)\<rparr>;
                                  s2 = fst (calculate_vip_status ops s1 uid)
                              in Inr (s2, [], OrderPlaced order_id)))))"

definition get_order :: "'f db \<Rightarrow> nat \<Rightarrow> 'f order option" where
  "get_order s order_id = find (\<lambda>x. o_id x = order_id) (orders s)"

definition delivery_bid :: "'f db \<Rightarrow> nat \<Rightarrow> nat \<Rightarrow> 'f option \<Rightarrow> error + ('f db \<times> flash)" where
  "delivery_bid s uid order_id bid_amount =
     (case login_required s uid of
        None \<Rightarrow> Inr (s, LoginRequired)
      | Some current_user \<Rightarrow>
          if role current_user \<noteq> ''DeliveryPerson'' then Inr (s, PermissionDenied)
          else
            (case get_order s order_id of
              None \<Rightarrow> Inl NotFound
            | Some ord \<Rightarrow>
                if o_delivery_person_id ord \<noteq> None \<and> o_delivery_person_id ord \<noteq> Some 0
                then Inr (s, AlreadyAssigned)
                else Inr (s\<lparr>delivery_bids := delivery_bids s @
                               [\<lparr>b_id = next_id (map b_id (delivery_bids s)),
                                 b_order_id = order_id, b_delivery_person_id = uid,
                                 b_amount = bid_amount, b_status = ''Pending''\<rparr>]\<rparr>, BidPlaced)))"

definition update_order_status ::
  "'f db \<Rightarrow> nat \<Rightarrow> nat \<Rightarrow> string option \<Rightarrow> error + ('f db \<times> flash)" where
  "update_order_status s uid order_id new_status =
     (case login_required s uid of
        None \<Rightarrow> Inr (s, LoginRequired)
      | Some current_user \<Rightarrow>
          (case get_order s order_id of
            None \<Rightarrow> Inl NotFound
          | Some ord \<Rightarrow>
              let can_update =
                    (if role current_user = ''Manager'' then True
                     else if role current_user = ''Chef''
                             \<and> o_status ord \<in> set [''Pending'', ''Preparing''] then True
                     else if role current_user = ''DeliveryPerson''
                             \<and> o_delivery_person_id ord = Some uid then True
                     else False)
              in
              (case new_status of
                Some st \<Rightarrow>
                  if can_update \<and> st \<in> set [''Pending'', ''Preparing'', ''Ready'',
                                            ''Out for Delivery'', ''Delivered'']
                  then Inr (s\<lparr>orders := map (\<lambda>x. if o_id x = order_id
                                                  then x\<lparr>o_status := st\<rparr> else x) (orders s)\<rparr>,
                            StatusUpdated st)
                  else Inr (s, NoUpdatePermission)
              | None \<Rightarrow> Inr (s, NoUpdatePermission))))"

text \<open>The three row updates of \<^verbatim>\<open>assign_order\<close>: the order, the chosen bid (by its primary
  key), and the bulk update of the bids of the order that are still Pending.\<close>

definition assign_to :: "nat \<Rightarrow> nat \<Rightarrow> 'f order \<Rightarrow> 'f order" where
  "assign_to order_id delivery_person_id x =
     (if o_id x = order_id
      then x\<lparr>o_delivery_person_id := Some delivery_person_id, o_status := ''Out for Delivery''\<rparr>
      else x)"

definition accept_bid :: "'f delivery_bid \<Rightarrow> 'f delivery_bid \<Rightarrow> 'f delivery_bid" where
  "accept_bid chosen b = (if b_id b = b_id chosen then b\<lparr>b_status := ''Accepted''\<rparr> else b)"

definition reject_pending :: "nat \<Rightarrow> 'f delivery_bid \<Rightarrow> 'f delivery_bid" where
  "reject_pending order_id b =
     (if b_order_id b = order_id \<and> b_status b = ''Pending''
      then b\<lparr>b_status := ''Rejected''\<rparr> else b)"

definition assign_order :: "'f db \<Rightarrow> nat \<Rightarrow> nat \<Rightarrow> nat \<Rightarrow> error + ('f db \<times> flash)" where
  "assign_order s uid order_id delivery_person_id =
     (case login_required s uid of
        None \<Rightarrow> Inr (s, LoginRequired)
      | Some current_user \<Rightarrow>
          if role current_user \<noteq> ''Manager'' then Inr (s, PermissionDenied)
          else
            (case get_order s order_id of
              None \<Rightarrow> Inl NotFound
            | Some ord \<Rightarrow>
                let s1 = s\<lparr>orders := map (assign_to order_id delivery_person_id) (orders s)\<rparr>;
                    bid = find (\<lambda>b. b_order_id b = order_id
                                     \<and> b_delivery_person_id b = delivery_person_id)
                               (delivery_bids s1);
                    bids1 = (case bid of
                               None \<Rightarrow> delivery_bids s1
                             | Some chosen \<Rightarrow> map (accept_bid chosen) (delivery_bids s1));
                    bids2 = map (reject_pending order_id) bids1
                in Inr (s1\<lparr>delivery_bids := bids2\<rparr>, OrderAssigned)))"

definition review_complaint ::
  "'f db \<Rightarrow> nat \<Rightarrow> nat \<Rightarrow> nat \<Rightarrow> string \<Rightarrow> utext \<Rightarrow> error + ('f db \<times> flash)" where
  "review_complaint s now uid complaint_id decision notes =
     (case login_required s uid of
        None \<Rightarrow> Inr (s, LoginRequired)
      | Some current_user \<Rightarrow>
          if role current_user \<noteq> ''Manager'' then Inr (s, PermissionDenied)
          else
            (case process_complaint_decision s now complaint_id decision (Some notes) of
              Inl e \<Rightarrow> Inl e
            | Inr (s', found) \<Rightarrow> Inr (s', ComplaintReviewed decision)))"

section \<open>The knowledge base responder (ai_service.py)\<close>

text \<open>\<^verbatim>\<open>s.split()\<close>: the maximal runs of characters that are not whitespace.\<close>

fun split_ws :: "unicode \<Rightarrow> utext \<Rightarrow> utext \<Rightarrow> utext list" where
  "split_ws u cur [] = (if cur = [] then [] else [cur])"
| "split_ws u cur (c # cs) =
     (if u_isspace u c then (if cur = [] then split_ws u [] cs else cur # split_ws u [] cs)
      else split_ws u (cur @ [c]) cs)"

definition py_split :: "unicode \<Rightarrow> utext \<Rightarrow> utext list" where
  "py_split u s = split_ws u [] s"

text \<open>\<^verbatim>\<open>content.split('\n\n')\<close>: cut at each pair of line feeds (code point 10),
  scanning from the left.\<close>

fun split_paragraphs :: "utext \<Rightarrow> utext \<Rightarrow> utext list" where
  "split_paragraphs cur (c # d # cs) =
     (if c = 10 \<and> d = 10 then cur # split_paragraphs [] cs
      else split_paragraphs (cur @ [c]) (d # cs))"
| "split_paragraphs cur cs = [cur @ cs]"

definition py_strip :: "unicode \<Rightarrow> utext \<Rightarrow> utext" where
  "py_strip u s = rev (dropWhile (u_isspace u) (rev (dropWhile (u_isspace u) s)))"

fun starts_with :: "utext \<Rightarrow> utext \<Rightarrow> bool" where
  "starts_with [] ys = True"
| "starts_with (x # xs) [] = False"
| "starts_with (x # xs) (y # ys) = (x = y \<and> starts_with xs ys)"

text \<open>\<^verbatim>\<open>w in text\<close>: \<open>w\<close> occurs in \<open>text\<close> as a contiguous substring.\<close>

fun contains :: "utext \<Rightarrow> utext \<Rightarrow> bool" where
  "contains w [] = (w = [])"
| "contains w (c # cs) = (starts_with w (c # cs) \<or> contains w cs)"

definition stop_words :: "utext list" where
  "stop_words = map codes
     [''what'', ''is'', ''the'', ''a'', ''an'', ''how'', ''do'', ''does'', ''can'',
      ''i'', ''you'', ''we'', ''are'', ''to'', ''for'', ''of'', ''with'', ''on'',
      ''at'', ''by'', ''from'', ''as'', ''about'']"

definition query_words_of :: "unicode \<Rightarrow> utext \<Rightarrow> utext list" where
  "query_words_of u query =
     (let query_lower = u_lower u query;
          query_words = filter (\<lambda>w. w \<notin> set stop_words \<and> length w > 2) (py_split u query_lower)
      in if query_words = [] then py_split u query_lower else query_words)"

text \<open>The number of query words (with repetitions) that occur in a piece of text.\<close>

definition matches :: "unicode \<Rightarrow> utext list \<Rightarrow> utext \<Rightarrow> nat" where
  "matches u query_words txt = length (filter (\<lambda>w. contains w (u_lower u txt)) query_words)"

definition scored :: "unicode \<Rightarrow> utext list \<Rightarrow> utext list \<Rightarrow> (nat \<times> utext) list" where
  "scored u query_words parts =
     map (\<lambda>p. (matches u query_words p, py_strip u p))
         (filter (\<lambda>p. matches u query_words p > 0) parts)"

text \<open>\<^verbatim>\<open>sort(reverse=True, key=lambda x: x[0])\<close>: descending by score, stable.\<close>

definition sort_desc :: "(nat \<times> utext) list \<Rightarrow> (nat \<times> utext) list" where
  "sort_desc xs = sort_key (\<lambda>x. - int (fst x)) xs"

definition paragraph_answer :: "utext list \<Rightarrow> (nat \<times> utext) list \<Rightarrow> utext option" where
  "paragraph_answer query_words best_matches =
     (case best_matches of
        [] \<Rightarrow> None
      | top_match # rest \<Rightarrow>
          if real (fst top_match) \<ge> real (length query_words) * 0.5 then
            (case rest of
               second # _ \<Rightarrow>
                 if real (fst second) \<ge> real (length query_words) * 0.3
                 then Some (snd top_match @ [10, 10] @ snd second)
                 else Some (snd top_match)
             | [] \<Rightarrow> Some (snd top_match))
          else None)"

text \<open>\<^verbatim>\<open>re.split(r'[.!?]\s+', content)\<close>.\<close>

function split_sentences :: "unicode \<Rightarrow> utext \<Rightarrow> utext \<Rightarrow> utext list" where
  "split_sentences u cur [] = [cur]"
| "split_sentences u cur (c # cs) =
     (if c \<in> set (codes ''.!?'') \<and> cs \<noteq> [] \<and> u_isspace u (hd cs)
      then cur # split_sentences u [] (dropWhile (u_isspace u) cs)
      else split_sentences u (cur @ [c]) cs)"
  by pat_completeness auto
termination
  by (relation "measure (\<lambda>(u, cur, cs). length cs)")
     (auto simp: less_Suc_eq_le length_dropWhile_le)

fun join_sentences :: "utext list \<Rightarrow> utext" where
  "join_sentences [] = []"
| "join_sentences [x] = x"
| "join_sentences (x # y # ys) = x @ codes ''. '' @ join_sentences (y # ys)"

definition sentence_answer :: "(nat \<times> utext) list \<Rightarrow> utext option" where
  "sentence_answer sentence_matches =
     (case sentence_matches of
        [] \<Rightarrow> None
      | top_match # _ \<Rightarrow>
          if fst top_match \<ge> 2 then
            let result = join_sentences (map snd (take 3 sentence_matches))
            in Some (if result \<noteq> [] \<and> last result = 46 then result else result @ codes ''.'')
          else None)"

text \<open>The argument \<open>file\<close> is the content of the knowledge file, \<open>None\<close> when the file
  does not exist or cannot be read.\<close>

definition search_local_knowledge_base :: "unicode \<Rightarrow> utext option \<Rightarrow> utext \<Rightarrow> utext option" where
  "search_local_knowledge_base u file query =
     (case file of
        None \<Rightarrow> None
      | Some content \<Rightarrow>
          let query_words = query_words_of u query;
              paragraphs = split_paragraphs [] content;
              best_matches = sort_desc (scored u query_words paragraphs)
          in (case paragraph_answer query_words best_matches of
                Some a \<Rightarrow> Some a
              | None \<Rightarrow>
                  let sentences = split_sentences u [] content;
                      sentence_matches = sort_desc (scored u query_words sentences)
                  in sentence_answer sentence_matches))"

text \<open>The message of \<^verbatim>\<open>get_ai_response\<close> when nothing is found and no key is configured
  (39 is the apostrophe, 10 the line feed).\<close>

definition fallback_message :: "utext \<Rightarrow> utext" where
  "fallback_message query =
     codes ''I couldn'' @ [39] @ codes ''t find specific information about '' @ [39] @ query
     @ [39] @ codes '' in our knowledge base. The local AI service (Hugging Face) is not configured. You can ask me about:''
     @ [10, 10] @ codes ''- Our menu items and prices''
     @ [10] @ codes ''- How to place orders''
     @ [10] @ codes ''- Delivery information''
     @ [10] @ codes ''- VIP status and benefits''
     @ [10] @ codes ''- How to file complaints or compliments''
     @ [10] @ codes ''- Chef ratings''
     @ [10, 10] @ codes ''Or contact our support team for more specific questions.''"

text \<open>
  \<^verbatim>\<open>get_ai_response\<close>: \<open>api_key\<close> is the configured key (empty when there is none) and
  \<open>llm\<close> the external completion call, which always returns a string. The result is
  the new store, the answer, the source tag and the id of the new rating record.
\<close>

definition get_ai_response ::
  "'f float_ops \<Rightarrow> unicode \<Rightarrow> 'f db \<Rightarrow> utext option \<Rightarrow> string \<Rightarrow> (utext \<Rightarrow> utext) \<Rightarrow> utext
     \<Rightarrow> nat option \<Rightarrow> 'f db \<times> utext \<times> string \<times> nat" where
  "get_ai_response ops u s file api_key llm query user_id =
     (let found = search_local_knowledge_base u file query;
          (answer, source) =
             (case found of
                Some a \<Rightarrow> if a \<noteq> [] then (a, ''local'')
                          else if api_key \<noteq> [] then (llm query, ''llm'')
                          else (fallback_message query, ''local'')
              | None \<Rightarrow> if api_key \<noteq> [] then (llm query, ''llm'')
                        else (fallback_message query, ''local''));
          (s1, kb_entry) =
             (if source = ''local'' then
                (case find (\<lambda>e. kb_question e = query) (knowledge_base_entries s) of
                   Some e \<Rightarrow> (s, Some (kb_id e))
                 | None \<Rightarrow>
                     let new_id = next_id (map kb_id (knowledge_base_entries s))
                     in (s\<lparr>knowledge_base_entries := knowledge_base_entries s @
                             [\<lparr>kb_id = new_id, kb_question = query, kb_answer = answer,
                               kb_rating = fl_zero ops, kb_rating_count = 0,
                               kb_flagged = False\<rparr>]\<rparr>,
                         Some new_id))
              else (s, None));
          rating_id = next_id (map r_id (ai_response_ratings s1));
          s2 = s1\<lparr>ai_response_ratings := ai_response_ratings s1 @
                    [\<lparr>r_id = rating_id, r_kb_entry_id = kb_entry, r_user_id = user_id,
                      r_query = query, r_response = answer, r_rating = 0,
                      r_source = source\<rparr>]\<rparr>
      in (s2, answer, source, rating_id))"

text \<open>
  \<^verbatim>\<open>rate_ai_response\<close> commits the new value of the rating record first. In the branch
  for the value 0 with a linked entry that exists, the entry is flagged in the session
  and then \<^verbatim>\<open>AIResponseRating.query.filter(...)\<close> is evaluated. The class
  \<^verbatim>\<open>AIResponseRating\<close> declares a column named \<^verbatim>\<open>query\<close>, which takes the place of the
  query property of the model class, and a column attribute has no \<^verbatim>\<open>filter\<close>: the
  call raises AttributeError, and the flag, not yet committed, is lost with the session.
  The result is the store left behind and the value returned or the exception raised.
\<close>

definition rate_ai_response :: "'f db \<Rightarrow> nat \<Rightarrow> int \<Rightarrow> 'f db \<times> (error + bool)" where
  "rate_ai_response s rating_id rating_value =
     (if rating_value < 0 \<or> rating_value > 5 then (s, Inr False)
      else
        (case find (\<lambda>r. r_id r = rating_id) (ai_response_ratings s) of
           None \<Rightarrow> (s, Inr False)
         | Some rating_record \<Rightarrow>
             let s1 = s\<lparr>ai_response_ratings :=
                         map (\<lambda>r. if r_id r = rating_id then r\<lparr>r_rating := rating_value\<rparr> else r)
                             (ai_response_ratings s)\<rparr>
             in
             if rating_value = 0 \<and> r_kb_entry_id rating_record \<noteq> None
                \<and> r_kb_entry_id rating_record \<noteq> Some 0 then
               (case find (\<lambda>e. Some (kb_id e) = r_kb_entry_id rating_record)
                          (knowledge_base_entries s1) of
                  None \<Rightarrow> (s1, Inr True)
                | Some kb_entry \<Rightarrow> (s1, Inl AttributeError))
             else (s1, Inr True)))"

section \<open>Notions used in the properties, and example stores\<close>

text \<open>
  The examples are evaluated with an instance of each record of operations: exact
  arithmetic on real numbers, which is what the doubles compute on the small whole
  numbers of the examples, and the two Unicode tables on ASCII text, which is what
  Python computes when every code point is below 128.
\<close>

definition exact :: "real float_ops" where
  "exact = \<lparr>fl_zero = 0, fl_hundred = 100, fl_less = (<), fl_truthy = (\<lambda>x. x \<noteq> 0),
            fl_sub = (-), fl_mul = (*), fl_of_int = (\<lambda>i. Some (real_of_int i)),
            fl_sum = sum_list, fl_pysum = sum_list\<rparr>"

definition ascii :: unicode where
  "ascii = \<lparr>u_lower = map (\<lambda>n. if 65 \<le> n \<and> n \<le> 90 then n + 32 else n),
            u_isspace = (\<lambda>n. n \<in> set [9, 10, 11, 12, 13, 28, 29, 30, 31, 32])\<rparr>"

definition empty_db :: "real db" where
  "empty_db = \<lparr>users = Map.empty, orders = [], order_items = [], complaints = [],
               warnings = [], blacklist = [], delivery_bids = [],
               knowledge_base_entries = [], ai_response_ratings = []\<rparr>"

definition account :: "string \<Rightarrow> real \<Rightarrow> real user" where
  "account r b = \<lparr>role = r, balance = b, is_active = True\<rparr>"

definition placed :: "nat \<Rightarrow> nat \<Rightarrow> string \<Rightarrow> real \<Rightarrow> real order" where
  "placed i uid st amount =
     \<lparr>o_id = i, o_customer_id = uid, o_delivery_person_id = None, o_status = st,
      o_total_amount = amount, o_delivery_address = [], o_notes = []\<rparr>"

definition filed :: "nat \<Rightarrow> nat \<Rightarrow> nat option \<Rightarrow> string \<Rightarrow> complaint" where
  "filed i filer oid st =
     \<lparr>c_id = i, c_filed_by_id = filer, c_filed_against_id = 9, c_order_id = oid,
      c_description = codes ''cold food'', c_status = st, c_manager_decision = None,
      c_manager_notes = None, c_reviewed_at = None\<rparr>"

text \<open>
  A ledger of six accounts. Customer 1 has two Delivered orders of 60 and 50; customer 2
  has three Delivered orders of 10 each, one of them with a Rejected complaint; customer 3
  has one Delivered order of 40, with an Approved complaint, and one Pending order of 500;
  account 4 is a VIP; the Visitor 5 and the Chef 6 each have one Delivered order of 150.
\<close>

definition ledger :: "real db" where
  "ledger = empty_db
     \<lparr>users := [1 \<mapsto> account ''Customer'' 0, 2 \<mapsto> account ''Customer'' 0,
                3 \<mapsto> account ''Customer'' 0, 4 \<mapsto> account ''VIP'' 0,
                5 \<mapsto> account ''Visitor'' 0, 6 \<mapsto> account ''Chef'' 0],
      orders := [placed 1 1 ''Delivered'' 60, placed 2 1 ''Delivered'' 50,
                 placed 3 2 ''Delivered'' 10, placed 4 2 ''Delivered'' 10,
                 placed 5 2 ''Delivered'' 10,
                 placed 6 3 ''Delivered'' 40, placed 7 3 ''Pending'' 500,
                 placed 8 5 ''Delivered'' 150, placed 9 6 ''Delivered'' 150],
      complaints := [filed 1 2 (Some 3) ''Rejected'', filed 2 3 (Some 6) ''Approved'']\<rparr>"

text \<open>The same store with one account promoted.\<close>

definition promoted :: "real db \<Rightarrow> nat \<Rightarrow> real db" where
  "promoted s uid = s\<lparr>users := (users s)(uid \<mapsto> account ''VIP'' 0)\<rparr>"

text \<open>The number of Blacklist rows of an account.\<close>

definition blacklist_entries :: "'f db \<Rightarrow> nat \<Rightarrow> nat" where
  "blacklist_entries s user_id = length (filter (\<lambda>e. bl_user_id e = user_id) (blacklist s))"

text \<open>One request to any of the modelled operations, with the store it leaves behind.
  The handlers that are not modelled (registration, login, deposits, ratings of chefs,
  filing of complaints and compliments, staff management, knowledge base management)
  never write to the Blacklist table.\<close>

inductive step :: "'f db \<Rightarrow> 'f db \<Rightarrow> bool" where
  promote: "step s (fst (calculate_vip_status ops s uid))"
| resolve: "step s (persisted s (process_complaint_decision s now cid decision notes))"
| review: "step s (persisted s (review_complaint s now uid cid decision' notes'))"
| place: "step s (persisted s (place_order ops s uid cart address order_notes))"
| bid: "step s (persisted s (delivery_bid s uid oid amount))"
| update: "step s (persisted s (update_order_status s uid oid new_status))"
| assign: "step s (persisted s (assign_order s uid oid dp))"
| ask: "step s (fst (get_ai_response ops u s file api_key llm query asker))"
| rate: "step s (fst (rate_ai_response s rid rating_value))"

text \<open>One customer who has filed four complaints, none reviewed yet; the manager
  rejects the first three.\<close>

definition pending_complaint :: "nat \<Rightarrow> nat \<Rightarrow> complaint" where
  "pending_complaint i filer = filed i filer None ''Pending''"

definition filer_db :: "real db" where
  "filer_db = empty_db\<lparr>users := [1 \<mapsto> account ''Customer'' 0],
                       complaints := map (\<lambda>i. pending_complaint i 1) [1, 2, 3, 4]\<rparr>"

definition reject :: "real db \<Rightarrow> nat \<Rightarrow> real db" where
  "reject s cid = persisted s (process_complaint_decision s 0 cid ''Rejected'' None)"

definition three_rejections :: "real db" where
  "three_rejections = reject (reject (reject filer_db 1) 2) 3"

text \<open>A shop with one customer (balance 5), a manager, a manager who has been
  deactivated, three delivery persons, one Pending order and two Pending bids on it, by
  the delivery persons 10 and 11.\<close>

definition pending_bid :: "nat \<Rightarrow> nat \<Rightarrow> nat \<Rightarrow> real delivery_bid" where
  "pending_bid i oid dp =
     \<lparr>b_id = i, b_order_id = oid, b_delivery_person_id = dp, b_amount = None,
      b_status = ''Pending''\<rparr>"

definition shop_db :: "real db" where
  "shop_db = empty_db\<lparr>users := [1 \<mapsto> account ''Customer'' 5, 9 \<mapsto> account ''Manager'' 0,
                                 8 \<mapsto> (account ''Manager'' 0)\<lparr>is_active := False\<rparr>,
                                 10 \<mapsto> account ''DeliveryPerson'' 0,
                                 11 \<mapsto> account ''DeliveryPerson'' 0,
                                 12 \<mapsto> account ''DeliveryPerson'' 0],
                      orders := [placed 1 1 ''Pending'' 20],
                      delivery_bids := [pending_bid 1 1 10, pending_bid 2 1 11]\<rparr>"




definition assign :: "real db \<Rightarrow> nat \<Rightarrow> real db" where
  "assign s dp = persisted s (assign_order s 9 1 dp)"


text \<open>The statuses \<^verbatim>\<open>update_order_status\<close> writes, and the store with one
  order's status set.\<close>

definition set_status :: "'f db \<Rightarrow> nat \<Rightarrow> string \<Rightarrow> 'f db" where
  "set_status s order_id st =
     s\<lparr>orders := map (\<lambda>x. if o_id x = order_id then x\<lparr>o_status := st\<rparr> else x) (orders s)\<rparr>"

definition settable :: "string set" where
  "settable = {''Pending'', ''Preparing'', ''Ready'', ''Out for Delivery'', ''Delivered''}"

text \<open>A piece of text reaches a share of the query when its score is at least that share
  of the number of query words.\<close>

definition reaches :: "unicode \<Rightarrow> utext list \<Rightarrow> real \<Rightarrow> utext \<Rightarrow> bool" where
  "reaches u query_words share p =
     (real (matches u query_words p) \<ge> real (length query_words) * share)"

text \<open>The matching paragraphs, sorted by falling score; the sorted list of matches is the
  image of this list.\<close>

definition ranked :: "unicode \<Rightarrow> utext list \<Rightarrow> utext list \<Rightarrow> utext list" where
  "ranked u query_words parts =
     sort_key (\<lambda>p. - int (matches u query_words p))
              (filter (\<lambda>p. matches u query_words p > 0) parts)"

text \<open>The separator between two returned paragraphs, and the corpus of the example: two
  paragraphs, the second one ending in a line feed.\<close>

definition blank_line :: utext where
  "blank_line = [10, 10]"

definition delivery_text :: utext where
  "delivery_text = codes ''We offer free delivery on orders over $30.''"

definition hours_text :: utext where
  "hours_text = codes ''We open at 9 and close at 5.''"

definition corpus :: utext where
  "corpus = hours_text @ blank_line @ delivery_text @ [10]"

text \<open>One knowledge base entry, not rated yet, and the rating record of one answer
  shown for it.\<close>

definition rated_db :: "real db" where
  "rated_db = empty_db\<lparr>knowledge_base_entries :=
                         [\<lparr>kb_id = 1, kb_question = codes ''Is delivery free?'',
                           kb_answer = codes ''Delivery is free over $30.'',
                           kb_rating = 0, kb_rating_count = 0, kb_flagged = False\<rparr>],
                       ai_response_ratings :=
                         [\<lparr>r_id = 1, r_kb_entry_id = Some 1, r_user_id = None,
                           r_query = codes ''Is delivery free?'',
                           r_response = codes ''Delivery is free over $30.'',
                           r_rating = 0, r_source = ''local''\<rparr>]\<rparr>"

section \<open>Properties of the promotion rule\<close>

lemma no_approved_complaints_iff:
  "(length (filter (\<lambda>c. (case c_order_id c of None \<Rightarrow> False | Some i \<Rightarrow> i \<in> set ids)
                          \<and> c_status c = ''Approved'') cs) = 0)
   = (\<forall>c \<in> set cs. c_status c = ''Approved'' \<longrightarrow>
         (\<forall>i. c_order_id c = Some i \<longrightarrow> i \<notin> set ids))"
  by (auto simp: filter_empty_conv split: option.splits)

text \<open>
  The spending test in the words of the rule: the database's sum over the column is above
  100.0. The two hypotheses are facts about doubles: 0.0 is not above 100.0, and no
  float that counts as false is.
\<close>

lemma total_spent_above_hundred:
  assumes "\<not> fl_less ops (fl_hundred ops) (fl_zero ops)"
    and "\<forall>t. \<not> fl_truthy ops t \<longrightarrow> \<not> fl_less ops (fl_hundred ops) t"
  shows "fl_less ops (fl_hundred ops) (or_zero ops (sum_scalar ops column))
           = (column \<noteq> [] \<and> fl_less ops (fl_hundred ops) (fl_sum ops column))"
  using assms by (auto simp: or_zero_def sum_scalar_def)

text \<open>Every account that is neither staff nor VIP is evaluated by the same rule.\<close>

lemma calculate_vip_status_eligible:
  assumes "users s uid = Some u"
    and "role u \<notin> {''Chef'', ''DeliveryPerson'', ''Manager'', ''VIP''}"
    and "\<not> fl_less ops (fl_hundred ops) (fl_zero ops)"
    and "\<forall>t. \<not> fl_truthy ops t \<longrightarrow> \<not> fl_less ops (fl_hundred ops) t"
  shows "calculate_vip_status ops s uid =
           (let mine = filter (\<lambda>x. o_customer_id x = uid \<and> o_status x = ''Delivered'') (orders s)
            in if (mine \<noteq> [] \<and> fl_less ops (fl_hundred ops) (fl_sum ops (map o_total_amount mine)))
                  \<or> (3 \<le> length mine
                     \<and> (\<forall>c \<in> set (complaints s). c_status c = ''Approved'' \<longrightarrow>
                           (\<forall>i. c_order_id c = Some i \<longrightarrow> i \<notin> set (map o_id mine))))
               then (s\<lparr>users := (users s)(uid \<mapsto> u\<lparr>role := ''VIP''\<rparr>)\<rparr>, True)
               else (s, False))"
proof -
  let ?mine = "filter (\<lambda>x. o_customer_id x = uid \<and> o_status x = ''Delivered'') (orders s)"
  have spend: "fl_less ops (fl_hundred ops) (or_zero ops (sum_scalar ops (map o_total_amount ?mine)))
                 = (?mine \<noteq> [] \<and> fl_less ops (fl_hundred ops) (fl_sum ops (map o_total_amount ?mine)))"
    using total_spent_above_hundred [OF assms(3,4), of "map o_total_amount ?mine"] by simp
  show ?thesis
    using assms(1,2) no_approved_complaints_iff [of "map o_id ?mine" "complaints s"]
    by (simp add: calculate_vip_status_def set_role_def Let_def spend del: length_0_conv)
qed

text \<open>
  C3. For a Customer account the rule returns true and stores the role VIP exactly when
  the database's sum of the amounts of the Delivered orders of that account is above
  100.0, or there are at least three such orders and no Approved complaint refers to any
  of them; otherwise it returns false and the store is unchanged. A VIP account gets true
  and an unchanged store. The property holds for every floating-point arithmetic in
  which neither 0.0 nor a float that counts as false is above 100.0.
\<close>

theorem calculate_vip_status_customer:
  assumes "users s uid = Some u"
    and "\<not> fl_less ops (fl_hundred ops) (fl_zero ops)"
    and "\<forall>t. \<not> fl_truthy ops t \<longrightarrow> \<not> fl_less ops (fl_hundred ops) t"
  shows "(role u = ''Customer'' \<longrightarrow>
           calculate_vip_status ops s uid =
             (let mine = filter (\<lambda>x. o_customer_id x = uid \<and> o_status x = ''Delivered'') (orders s)
              in if (mine \<noteq> [] \<and> fl_less ops (fl_hundred ops) (fl_sum ops (map o_total_amount mine)))
                    \<or> (3 \<le> length mine
                       \<and> (\<forall>c \<in> set (complaints s). c_status c = ''Approved'' \<longrightarrow>
                             (\<forall>i. c_order_id c = Some i \<longrightarrow> i \<notin> set (map o_id mine))))
                 then (s\<lparr>users := (users s)(uid \<mapsto> u\<lparr>role := ''VIP''\<rparr>)\<rparr>, True)
                 else (s, False)))
       \<and> (role u = ''VIP'' \<longrightarrow> calculate_vip_status ops s uid = (s, True))"
proof (intro conjI impI)
  assume "role u = ''VIP''"
  then show "calculate_vip_status ops s uid = (s, True)"
    using assms(1) by (simp add: calculate_vip_status_def)
next
  assume "role u = ''Customer''"
  then have "role u \<notin> {''Chef'', ''DeliveryPerson'', ''Manager'', ''VIP''}" by simp
  from calculate_vip_status_eligible [OF assms(1) this assms(2,3)]
  show "calculate_vip_status ops s uid =
             (let mine = filter (\<lambda>x. o_customer_id x = uid \<and> o_status x = ''Delivered'') (orders s)
              in if (mine \<noteq> [] \<and> fl_less ops (fl_hundred ops) (fl_sum ops (map o_total_amount mine)))
                    \<or> (3 \<le> length mine
                       \<and> (\<forall>c \<in> set (complaints s). c_status c = ''Approved'' \<longrightarrow>
                             (\<forall>i. c_order_id c = Some i \<longrightarrow> i \<notin> set (map o_id mine))))
                 then (s\<lparr>users := (users s)(uid \<mapsto> u\<lparr>role := ''VIP''\<rparr>)\<rparr>, True)
                 else (s, False))" .
qed

lemma exact_sane:
  "\<not> fl_less exact (fl_hundred exact) (fl_zero exact)"
  "\<forall>t. \<not> fl_truthy exact t \<longrightarrow> \<not> fl_less exact (fl_hundred exact) t"
  by (simp_all add: exact_def)

lemma ledger_users:
  "users ledger 1 = Some (account ''Customer'' 0)" "users ledger 2 = Some (account ''Customer'' 0)"
  "users ledger 3 = Some (account ''Customer'' 0)" "users ledger 4 = Some (account ''VIP'' 0)"
  "users ledger 5 = Some (account ''Visitor'' 0)" "users ledger 6 = Some (account ''Chef'' 0)"
  "users ledger 7 = None"
  by (simp_all add: ledger_def empty_db_def)

text \<open>On the ledger: customer 1 is promoted for spending 110, customer 2 for three
  Delivered orders without an Approved complaint, customer 3 is not promoted (one
  Delivered order of 40; the Pending order of 500 and the other accounts' orders do not
  count), and the VIP 4 is left as it is.\<close>

theorem calculate_vip_status_customer_witness:
  "users ledger 1 = Some (account ''Customer'' 0) \<and> role (account ''Customer'' 0) = ''Customer''
   \<and> \<not> fl_less exact (fl_hundred exact) (fl_zero exact)
   \<and> calculate_vip_status exact ledger 1 = (promoted ledger 1, True)
   \<and> calculate_vip_status exact ledger 2 = (promoted ledger 2, True)
   \<and> calculate_vip_status exact ledger 3 = (ledger, False)
   \<and> users ledger 4 = Some (account ''VIP'' 0) \<and> role (account ''VIP'' 0) = ''VIP''
   \<and> calculate_vip_status exact ledger 4 = (ledger, True)"
proof -
  have r: "role (account ''Customer'' 0) = ''Customer''" "role (account ''VIP'' 0) = ''VIP''"
    by (simp_all add: account_def)
  have vip: "(account ''Customer'' 0)\<lparr>role := ''VIP''\<rparr> = account ''VIP'' 0"
    by (simp add: account_def)
  have o: "orders ledger = [placed 1 1 ''Delivered'' 60, placed 2 1 ''Delivered'' 50,
                 placed 3 2 ''Delivered'' 10, placed 4 2 ''Delivered'' 10,
                 placed 5 2 ''Delivered'' 10,
                 placed 6 3 ''Delivered'' 40, placed 7 3 ''Pending'' 500,
                 placed 8 5 ''Delivered'' 150, placed 9 6 ''Delivered'' 150]"
    and c: "complaints ledger = [filed 1 2 (Some 3) ''Rejected'', filed 2 3 (Some 6) ''Approved'']"
    by (simp_all add: ledger_def empty_db_def)
  have one: "calculate_vip_status exact ledger 1 = (promoted ledger 1, True)"
    using calculate_vip_status_customer [OF ledger_users(1) exact_sane]
    by (simp add: r vip o c placed_def filed_def promoted_def exact_def)
  have two: "calculate_vip_status exact ledger 2 = (promoted ledger 2, True)"
    using calculate_vip_status_customer [OF ledger_users(2) exact_sane]
    by (simp add: r vip o c placed_def filed_def promoted_def exact_def)
  have three: "calculate_vip_status exact ledger 3 = (ledger, False)"
    using calculate_vip_status_customer [OF ledger_users(3) exact_sane]
    by (simp add: r vip o c placed_def filed_def promoted_def exact_def)
  have four: "calculate_vip_status exact ledger 4 = (ledger, True)"
    using calculate_vip_status_customer [OF ledger_users(4) exact_sane]
    by (simp add: r)
  from one two three four r ledger_users exact_sane(1) show ?thesis by simp
qed




section \<open>Properties of the escalation rule\<close>

text \<open>A decision other than \<open>Rejected\<close> only stamps the complaint: status Approved for the
  string \<open>Approved\<close>, status Rejected for every other string; no warning is issued and no
  account or Blacklist row changes.\<close>

lemma process_complaint_decision_not_rejected:
  assumes "get_complaint s cid = Some c" and "d \<noteq> ''Rejected''"
  shows "process_complaint_decision s now cid d n =
           Inr (s\<lparr>complaints := map (\<lambda>x. if c_id x = cid then stamp_complaint now d n x else x)
                                     (complaints s)\<rparr>, True)"
    and "c_status (stamp_complaint now d n c) = (if d = ''Approved'' then ''Approved'' else ''Rejected'')"
  using assms by (simp_all add: process_complaint_decision_def stamp_complaint_def)

text \<open>A rejection whose filer exists and has no Blacklist row yet: one warning more, then
  the Blacklist row and the deactivation from the third warning on, or the demotion of a
  VIP at the second.\<close>

lemma process_complaint_decision_rejected:
  assumes "get_complaint s cid = Some c" and "users s (c_filed_by_id c) = Some f"
    and "\<not> is_user_blacklisted s (c_filed_by_id c)"
  shows "\<exists>s'. process_complaint_decision s now cid ''Rejected'' n = Inr (s', True)
          \<and> warnings s' = warnings s @
                [\<lparr>w_user_id = c_filed_by_id c,
                  w_reason = codes ''Rejected complaint: '' @ take 100 (c_description c),
                  w_complaint_id = Some cid\<rparr>]
          \<and> warning_count s' (c_filed_by_id c) = Suc (warning_count s (c_filed_by_id c))
          \<and> (3 \<le> warning_count s' (c_filed_by_id c) \<longrightarrow>
                is_user_blacklisted s' (c_filed_by_id c)
                \<and> users s' = (users s)(c_filed_by_id c \<mapsto> f\<lparr>is_active := False\<rparr>))
          \<and> (warning_count s' (c_filed_by_id c) = 2 \<and> role f = ''VIP'' \<longrightarrow>
                blacklist s' = blacklist s
                \<and> users s' = (users s)(c_filed_by_id c \<mapsto> f\<lparr>role := ''Customer''\<rparr>))
          \<and> (warning_count s' (c_filed_by_id c) < 2
               \<or> warning_count s' (c_filed_by_id c) = 2 \<and> role f \<noteq> ''VIP'' \<longrightarrow>
                blacklist s' = blacklist s \<and> users s' = users s)"
proof -
  from assms(3) have nb: "c_filed_by_id c \<notin> set (map bl_user_id (blacklist s))"
    by (auto simp: is_user_blacklisted_def find_None_iff)
  show ?thesis
    using assms(1,2) nb
    by (auto simp: process_complaint_decision_def warning_count_def is_user_blacklisted_def
          find_None_iff Let_def)
qed

lemma three_rejections_eq:
  "three_rejections =
     empty_db\<lparr>users := [1 \<mapsto> (account ''Customer'' 0)\<lparr>is_active := False\<rparr>],
              complaints := map (\<lambda>i. stamp_complaint 0 ''Rejected'' None (pending_complaint i 1)) [1, 2, 3]
                            @ [pending_complaint 4 1],
              warnings := map (\<lambda>i. \<lparr>w_user_id = 1, w_reason = codes ''Rejected complaint: cold food'',
                                      w_complaint_id = Some i\<rparr>) [1, 2, 3],
              blacklist := [\<lparr>bl_user_id = 1, bl_reason = ''3 warnings issued for rejected complaints''\<rparr>]\<rparr>"
  by (simp add: three_rejections_def reject_def filer_db_def empty_db_def account_def
        pending_complaint_def filed_def process_complaint_decision_def get_complaint_def
        persisted_def warning_count_def stamp_complaint_def codes_def)

text \<open>
  C1 at a store the code reaches: after three rejected complaints the filer has three
  warnings and a Blacklist row. Rejecting the fourth complaint inserts a second row for
  the same account, the commit raises IntegrityError, and no fourth warning is stored.
\<close>

theorem fourth_rejection_raises:
  "process_complaint_decision three_rejections 0 4 ''Rejected'' None = Inl IntegrityError
   \<and> warning_count three_rejections 1 = 3
   \<and> warning_count (reject three_rejections 4) 1 = 3"
  by (simp add: three_rejections_eq reject_def empty_db_def account_def
        pending_complaint_def filed_def process_complaint_decision_def get_complaint_def
        persisted_def warning_count_def stamp_complaint_def)

text \<open>
  C10 at the same store: the decision string \<open>Rejected\<close> differs from \<open>Approved\<close>, yet
  the call does not return true and the complaint keeps the status Pending.
\<close>

theorem fourth_rejection_not_stamped:
  "isl (process_complaint_decision three_rejections 0 4 ''Rejected'' None)
   \<and> map_option c_status (get_complaint three_rejections 4) = Some ''Pending''
   \<and> map_option c_status (get_complaint (reject three_rejections 4) 4) = Some ''Pending''"
  by (simp add: three_rejections_eq reject_def empty_db_def account_def
        pending_complaint_def filed_def process_complaint_decision_def get_complaint_def
        persisted_def warning_count_def stamp_complaint_def)

lemma blacklist_after_decision:
  "blacklist (persisted s (process_complaint_decision s now cid d n)) = blacklist s
   \<or> (\<exists>e. blacklist (persisted s (process_complaint_decision s now cid d n)) = blacklist s @ [e]
          \<and> bl_user_id e \<notin> set (map bl_user_id (blacklist s)))"
  by (auto simp: persisted_def process_complaint_decision_def Let_def split: option.splits)

lemma blacklist_entries_after_decision:
  assumes "blacklist_entries s u \<le> 1"
  shows "blacklist_entries (persisted s (process_complaint_decision s now cid d n)) u \<le> 1"
proof -
  let ?s' = "persisted s (process_complaint_decision s now cid d n)"
  consider "blacklist ?s' = blacklist s"
    | e where "blacklist ?s' = blacklist s @ [e]" "bl_user_id e \<notin> set (map bl_user_id (blacklist s))"
    using blacklist_after_decision [of s now cid d n] by blast
  then show ?thesis
  proof cases
    case 1
    then show ?thesis using assms by (simp add: blacklist_entries_def)
  next
    case 2
    show ?thesis
    proof (cases "bl_user_id e = u")
      case True
      from 2(2) True have "\<forall>x \<in> set (blacklist s). bl_user_id x \<noteq> u"
        by (metis imageI list.set_map)
      then have "filter (\<lambda>x. bl_user_id x = u) (blacklist s) = []"
        by (simp add: filter_empty_conv)
      with 2 True show ?thesis by (simp add: blacklist_entries_def)
    next
      case False
      with 2 assms show ?thesis by (simp add: blacklist_entries_def)
    qed
  qed
qed

lemma blacklist_review:
  "blacklist (persisted s (review_complaint s now uid cid d n))
     = blacklist s
   \<or> blacklist (persisted s (review_complaint s now uid cid d n))
     = blacklist (persisted s (process_complaint_decision s now cid d (Some n)))"
  by (auto simp: review_complaint_def persisted_def split: option.splits sum.splits)

lemma blacklist_other_handlers:
  "blacklist (fst (calculate_vip_status ops s uid)) = blacklist s"
  "blacklist (persisted s (place_order ops s uid cart a n)) = blacklist s"
  "blacklist (persisted s (delivery_bid s uid oid amount)) = blacklist s"
  "blacklist (persisted s (update_order_status s uid oid st)) = blacklist s"
  "blacklist (persisted s (assign_order s uid oid dp)) = blacklist s"
  "blacklist (fst (get_ai_response ops u s file key llm q asker)) = blacklist s"
  "blacklist (fst (rate_ai_response s rid v)) = blacklist s"
  by (auto simp: calculate_vip_status_def set_role_def place_order_def delivery_bid_def
        update_order_status_def assign_order_def get_ai_response_def rate_ai_response_def
        persisted_def Let_def split: option.splits prod.splits sum.splits)

text \<open>
  C2. If no account has more than one Blacklist row, then after any sequence of requests
  no account has more than one; and resolving as Rejected a complaint whose filer is
  already blacklisted leaves the Blacklist table as it is (the insert of a second row is
  refused by the unique column and the transaction is rolled back).
\<close>

theorem blacklist_at_most_one_entry:
  assumes "\<forall>u. blacklist_entries s u \<le> 1" and "step\<^sup>*\<^sup>* s s'"
  shows "(\<forall>u. blacklist_entries s' u \<le> 1)
         \<and> (\<forall>c. get_complaint s' cid = Some c \<and> is_user_blacklisted s' (c_filed_by_id c) \<longrightarrow>
                blacklist (persisted s' (process_complaint_decision s' now cid ''Rejected'' n))
                  = blacklist s')"
proof
  from assms(2) assms(1) show "\<forall>u. blacklist_entries s' u \<le> 1"
  proof (induction rule: rtranclp_induct)
    case base
    then show ?case .
  next
    case (step y z)
    then have inv: "\<forall>u. blacklist_entries y u \<le> 1" by simp
    from step(2) show ?case
    proof cases
      case (resolve now cid decision nts)
      show ?thesis unfolding resolve using inv blacklist_entries_after_decision by blast
    next
      case (review now uid cid d n)
      have "\<forall>u. blacklist_entries (persisted y (process_complaint_decision y now cid d (Some n))) u \<le> 1"
        using inv blacklist_entries_after_decision by blast
      with inv blacklist_review [of y now uid cid d n]
      show ?thesis unfolding review blacklist_entries_def by metis
    qed (use inv in \<open>simp_all add: blacklist_entries_def blacklist_other_handlers\<close>)
  qed
next
  show "\<forall>c. get_complaint s' cid = Some c \<and> is_user_blacklisted s' (c_filed_by_id c) \<longrightarrow>
                blacklist (persisted s' (process_complaint_decision s' now cid ''Rejected'' n))
                  = blacklist s'"
    by (auto simp: persisted_def process_complaint_decision_def is_user_blacklisted_def
          find_None_iff image_iff Let_def split: option.splits)
qed

theorem blacklist_at_most_one_entry_witness:
  "(\<forall>u. blacklist_entries filer_db u \<le> 1)
   \<and> step\<^sup>*\<^sup>* filer_db three_rejections
   \<and> (\<forall>u. blacklist_entries three_rejections u \<le> 1)
   \<and> get_complaint three_rejections 4 = Some (pending_complaint 4 1)
   \<and> is_user_blacklisted three_rejections (c_filed_by_id (pending_complaint 4 1))
   \<and> blacklist (persisted three_rejections
                    (process_complaint_decision three_rejections 0 4 ''Rejected'' None))
       = blacklist three_rejections
   \<and> blacklist_entries three_rejections 1 = 1"
proof -
  have inv: "\<forall>u. blacklist_entries filer_db u \<le> 1"
    by (simp add: blacklist_entries_def filer_db_def empty_db_def)
  have "step filer_db (reject filer_db 1)" "step (reject filer_db 1) (reject (reject filer_db 1) 2)"
       "step (reject (reject filer_db 1) 2) three_rejections"
    unfolding three_rejections_def reject_def by (rule step.resolve)+
  then have reach: "step\<^sup>*\<^sup>* filer_db three_rejections"
    by (meson rtranclp.rtrancl_into_rtrancl rtranclp.rtrancl_refl)
  have c: "get_complaint three_rejections 4 = Some (pending_complaint 4 1)"
    by (simp add: three_rejections_eq get_complaint_def pending_complaint_def filed_def
          stamp_complaint_def)
  have b: "is_user_blacklisted three_rejections (c_filed_by_id (pending_complaint 4 1))"
    by (simp add: three_rejections_eq is_user_blacklisted_def pending_complaint_def filed_def)
  have one: "blacklist_entries three_rejections 1 = 1"
    by (simp add: three_rejections_eq blacklist_entries_def)
  from blacklist_at_most_one_entry [OF inv reach, of 4 0 None] inv reach c b one
  show ?thesis by simp
qed

section \<open>Properties of the request handlers\<close>

text \<open>The cart total, written out: when every quantity converts to a float, the total
  is the sum of the products of price and quantity; when one does not, the request ends
  in OverflowError and the store stays as it was.\<close>

lemma line_totals_conv:
  assumes "map (\<lambda>(i, item). fl_of_int ops (ci_quantity item)) cart = map Some qs"
  shows "line_totals ops cart =
           Inr (map (\<lambda>((i, item), q). fl_mul ops (ci_price item) q) (zip cart qs))"
  using assms
proof (induction cart arbitrary: qs)
  case Nil
  then show ?case by simp
next
  case (Cons line cart)
  obtain i item where line: "line = (i, item)" by (cases line)
  from Cons.prems line obtain q qs' where qs: "qs = q # qs'"
    and q: "fl_of_int ops (ci_quantity item) = Some q"
    and rest: "map (\<lambda>(i, item). fl_of_int ops (ci_quantity item)) cart = map Some qs'"
    by (cases qs) auto
  from Cons.IH [OF rest] show ?case
    by (simp add: line qs q line_total_def)
qed

lemma cart_total_conv:
  assumes "map (\<lambda>(i, item). fl_of_int ops (ci_quantity item)) cart = map Some qs"
  shows "cart_total ops cart =
           Inr (fl_pysum ops (map (\<lambda>((i, item), q). fl_mul ops (ci_price item) q) (zip cart qs)))"
  by (simp add: cart_total_def line_totals_conv [OF assms])

lemma line_totals_overflow:
  assumes "(i, item) \<in> set cart" and "fl_of_int ops (ci_quantity item) = None"
  shows "line_totals ops cart = Inl OverflowError"
  using assms
proof (induction cart)
  case Nil
  then show ?case by simp
next
  case (Cons line cart)
  obtain j it where line: "line = (j, it)" by (cases line)
  show ?case
  proof (cases "fl_of_int ops (ci_quantity it)")
    case None
    then show ?thesis by (simp add: line line_total_def)
  next
    case (Some q)
    with Cons.prems line have "(i, item) \<in> set cart" by auto
    with Cons.IH Cons.prems(2) Some show ?thesis by (simp add: line line_total_def)
  qed
qed

lemma place_order_overflow:
  assumes "(i, item) \<in> set cart" and "fl_of_int ops (ci_quantity item) = None"
  shows "persisted s (place_order ops s uid cart address order_notes) = s"
proof -
  have "cart_total ops cart = Inl OverflowError"
    by (simp add: cart_total_def line_totals_overflow [OF assms])
  then show ?thesis
    by (auto simp: place_order_def persisted_def split: option.splits)
qed



text \<open>
  C8 as stated fails for the manager: only five status values are ever written. A
  manager who asks for the status Cancelled is turned away and the store is unchanged.
\<close>

theorem manager_cannot_cancel:
  "users shop_db 9 = Some (account ''Manager'' 0)
   \<and> update_order_status shop_db 9 1 (Some ''Cancelled'') = Inr (shop_db, NoUpdatePermission)"
  by (simp add: shop_db_def empty_db_def account_def update_order_status_def get_order_def
        login_required_def placed_def)

text \<open>
  C8, amended. For an account that is active: a manager sets any of the five values
  Pending, Preparing, Ready, Out for Delivery, Delivered; a chef does so only while the
  order is Pending or Preparing; a delivery person only on an order assigned to them;
  every other attempt (another role, another value, no value) leaves the whole store
  unchanged. An account that has been deactivated is sent to the login page and the
  store is unchanged.
\<close>

theorem update_order_status_authorization:
  assumes "users s uid = Some u" and "get_order s oid = Some ord"
  shows "(is_active u \<and> role u = ''Manager'' \<and> st \<in> settable \<longrightarrow>
            update_order_status s uid oid (Some st) = Inr (set_status s oid st, StatusUpdated st))
       \<and> (is_active u \<and> role u = ''Chef'' \<longrightarrow>
            update_order_status s uid oid (Some st) =
              (if o_status ord \<in> {''Pending'', ''Preparing''} \<and> st \<in> settable
               then Inr (set_status s oid st, StatusUpdated st)
               else Inr (s, NoUpdatePermission)))
       \<and> (is_active u \<and> role u = ''DeliveryPerson'' \<longrightarrow>
            update_order_status s uid oid (Some st) =
              (if o_delivery_person_id ord = Some uid \<and> st \<in> settable
               then Inr (set_status s oid st, StatusUpdated st)
               else Inr (s, NoUpdatePermission)))
       \<and> (is_active u \<and> (role u \<notin> {''Manager'', ''Chef'', ''DeliveryPerson''} \<or> st \<notin> settable) \<longrightarrow>
            update_order_status s uid oid (Some st) = Inr (s, NoUpdatePermission))
       \<and> (is_active u \<longrightarrow> update_order_status s uid oid None = Inr (s, NoUpdatePermission))
       \<and> (\<not> is_active u \<longrightarrow> update_order_status s uid oid new_status = Inr (s, LoginRequired))"
  using assms
  by (simp add: update_order_status_def login_required_def set_status_def settable_def)

theorem update_order_status_authorization_witness:
  "users shop_db 9 = Some (account ''Manager'' 0)
   \<and> get_order shop_db 1 = Some (placed 1 1 ''Pending'' 20)
   \<and> is_active (account ''Manager'' 0)
   \<and> role (account ''Manager'' 0) = ''Manager'' \<and> ''Delivered'' \<in> settable
   \<and> update_order_status shop_db 9 1 (Some ''Delivered'')
        = Inr (set_status shop_db 1 ''Delivered'', StatusUpdated ''Delivered'')
   \<and> map o_status (orders (set_status shop_db 1 ''Delivered'')) = [''Delivered'']
   \<and> users shop_db 10 = Some (account ''DeliveryPerson'' 0)
   \<and> role (account ''DeliveryPerson'' 0) = ''DeliveryPerson''
   \<and> update_order_status shop_db 10 1 (Some ''Delivered'') = Inr (shop_db, NoUpdatePermission)
   \<and> users shop_db 8 = Some ((account ''Manager'' 0)\<lparr>is_active := False\<rparr>)
   \<and> update_order_status shop_db 8 1 (Some ''Delivered'') = Inr (shop_db, LoginRequired)"
proof -
  have m: "users shop_db 9 = Some (account ''Manager'' 0)"
    and d: "users shop_db 10 = Some (account ''DeliveryPerson'' 0)"
    and f: "users shop_db 8 = Some ((account ''Manager'' 0)\<lparr>is_active := False\<rparr>)"
    and g: "get_order shop_db 1 = Some (placed 1 1 ''Pending'' 20)"
    by (simp_all add: shop_db_def empty_db_def get_order_def placed_def)
  have r: "role (account ''Manager'' 0) = ''Manager''" "''Delivered'' \<in> settable"
          "role (account ''DeliveryPerson'' 0) = ''DeliveryPerson''"
          "o_delivery_person_id (placed 1 1 ''Pending'' 20) \<noteq> Some 10"
          "is_active (account ''Manager'' 0)" "is_active (account ''DeliveryPerson'' 0)"
          "\<not> is_active ((account ''Manager'' 0)\<lparr>is_active := False\<rparr>)"
    by (simp_all add: account_def settable_def placed_def)
  have st: "map o_status (orders (set_status shop_db 1 ''Delivered'')) = [''Delivered'']"
    by (simp add: set_status_def shop_db_def empty_db_def placed_def)
  from update_order_status_authorization [OF m g, of "''Delivered''"]
       update_order_status_authorization [OF d g, of "''Delivered''"]
       update_order_status_authorization [OF f g, of _ "Some ''Delivered''"] m d f g r st
  show ?thesis by simp
qed










section \<open>Properties of the knowledge base responder\<close>

subsection \<open>Feedback\<close>

lemma rate_ai_response_out_of_range:
  "v < 0 \<or> 5 < v \<Longrightarrow> rate_ai_response s rid v = (s, Inr False)"
  by (auto simp: rate_ai_response_def)

lemma rate_ai_response_stars:
  assumes "1 \<le> v" and "v \<le> 5"
  shows "knowledge_base_entries (fst (rate_ai_response s rid v)) = knowledge_base_entries s"
  using assms by (auto simp: rate_ai_response_def Let_def split: option.splits)

text \<open>The value 0 on an answer whose entry exists: the rating record keeps the 0, the
  request ends in AttributeError, and the entry is neither flagged nor averaged.\<close>

lemma rate_ai_response_zero:
  assumes "find (\<lambda>r. r_id r = rid) (ai_response_ratings s) = Some r"
    and "r_kb_entry_id r = Some k" and "k \<noteq> 0"
    and "find (\<lambda>e. kb_id e = k) (knowledge_base_entries s) = Some e"
  shows "rate_ai_response s rid 0
           = (s\<lparr>ai_response_ratings :=
                   map (\<lambda>x. if r_id x = rid then x\<lparr>r_rating := 0\<rparr> else x) (ai_response_ratings s)\<rparr>,
              Inl AttributeError)"
proof -
  have k: "find (\<lambda>e. Some (kb_id e) = Some k) (knowledge_base_entries s) = Some e"
    using assms(4) by simp
  show ?thesis
    using assms(1-3) k by (simp add: rate_ai_response_def Let_def)
qed

text \<open>
  C6 at a fresh entry: the answer is rated five stars. The rating record takes the value,
  but the average and the count of the entry stay 0 and 0: the average is only
  recomputed inside the branch for the value 0.
\<close>

theorem five_stars_not_in_average:
  "fst (rate_ai_response rated_db 1 5)
     = rated_db\<lparr>ai_response_ratings := map (\<lambda>r. r\<lparr>r_rating := 5\<rparr>) (ai_response_ratings rated_db)\<rparr>
   \<and> snd (rate_ai_response rated_db 1 5) = Inr True
   \<and> map r_rating (ai_response_ratings (fst (rate_ai_response rated_db 1 5))) = [5]
   \<and> map kb_rating (knowledge_base_entries (fst (rate_ai_response rated_db 1 5))) = [0]
   \<and> map kb_rating_count (knowledge_base_entries (fst (rate_ai_response rated_db 1 5))) = [0]"
  by (simp add: rate_ai_response_def rated_db_def empty_db_def)

subsection \<open>Lookup: words and whitespace\<close>

lemma split_ws_words:
  assumes "\<forall>c \<in> set cur. \<not> u_isspace u c" and "w \<in> set (split_ws u cur s)"
  shows "w \<noteq> [] \<and> (\<forall>c \<in> set w. \<not> u_isspace u c)"
  using assms
proof (induction s arbitrary: cur)
  case Nil
  then show ?case by (auto split: if_splits)
next
  case (Cons c cs)
  show ?case
  proof (cases "u_isspace u c")
    case True
    with Cons.prems have "w = cur \<and> cur \<noteq> [] \<or> w \<in> set (split_ws u [] cs)"
      by (auto split: if_splits)
    then show ?thesis
    proof
      assume "w = cur \<and> cur \<noteq> []"
      with Cons.prems(1) show ?thesis by simp
    next
      assume "w \<in> set (split_ws u [] cs)"
      with Cons.IH [of "[]"] show ?thesis by simp
    qed
  next
    case False
    with Cons.prems have "w \<in> set (split_ws u (cur @ [c]) cs)" by simp
    moreover from False Cons.prems(1) have "\<forall>x \<in> set (cur @ [c]). \<not> u_isspace u x" by simp
    ultimately show ?thesis using Cons.IH by blast
  qed
qed

lemma query_words_of_words:
  assumes "w \<in> set (query_words_of u query)"
  shows "w \<noteq> [] \<and> (\<forall>c \<in> set w. \<not> u_isspace u c)"
proof -
  from assms have "w \<in> set (py_split u (u_lower u query))"
    by (auto simp: query_words_of_def Let_def split: if_splits)
  then show ?thesis
    using split_ws_words [of "[]" u w "u_lower u query"] by (simp add: py_split_def)
qed

lemma starts_with_subset: "starts_with w t \<Longrightarrow> set w \<subseteq> set t"
  by (induction w t rule: starts_with.induct) auto

lemma contains_subset: "contains w t \<Longrightarrow> set w \<subseteq> set t"
proof (induction t)
  case Nil
  then show ?case by simp
next
  case (Cons a t)
  from Cons.prems have "starts_with w (a # t) \<or> contains w t" by simp
  then show ?case
  proof
    assume "starts_with w (a # t)"
    then show ?thesis by (rule starts_with_subset)
  next
    assume "contains w t"
    with Cons.IH show ?thesis by auto
  qed
qed

lemma py_strip_nonempty:
  assumes "c \<in> set t" and "\<not> u_isspace u c"
  shows "py_strip u t \<noteq> []"
proof -
  from assms have "dropWhile (u_isspace u) t \<noteq> []" by auto
  moreover have "c \<in> set (dropWhile (u_isspace u) t)"
    using assms by (metis takeWhile_dropWhile_id Un_iff set_append set_takeWhileD)
  ultimately show ?thesis
    using assms(2) by (auto simp: py_strip_def)
qed

text \<open>A paragraph that matches a query word is not blank, because lowering a text of
  whitespace alone gives whitespace alone.\<close>

lemma matched_paragraph_not_blank:
  assumes blank: "\<forall>t. (\<forall>d \<in> set t. u_isspace u d) \<longrightarrow> (\<forall>c \<in> set (u_lower u t). u_isspace u c)"
    and "0 < matches u (query_words_of u query) p"
  shows "py_strip u p \<noteq> []"
proof -
  from assms(2) obtain w where w: "w \<in> set (query_words_of u query)" "contains w (u_lower u p)"
    by (auto simp: matches_def filter_empty_conv)
  from query_words_of_words [OF w(1)] obtain c where c: "c \<in> set w" "\<not> u_isspace u c"
    by (cases w) auto
  from contains_subset [OF w(2)] c(1) have "c \<in> set (u_lower u p)" by blast
  with c(2) blank obtain d where d: "d \<in> set p" "\<not> u_isspace u d" by blast
  then show ?thesis by (rule py_strip_nonempty)
qed

subsection \<open>The stable descending sort\<close>

lemma insort_key_map:
  "insort_key k (f x) (map f ys) = map f (insort_key (\<lambda>y. k (f y)) x ys)"
  by (induction ys) simp_all

lemma sort_key_map: "sort_key k (map f xs) = map f (sort_key (\<lambda>y. k (f y)) xs)"
  by (induction xs) (simp_all add: insort_key_map)

lemma sort_desc_scored:
  "sort_desc (scored u qw parts) = map (\<lambda>p. (matches u qw p, py_strip u p)) (ranked u qw parts)"
  by (simp add: sort_desc_def scored_def ranked_def sort_key_map)

lemma sort_key_filter_head:
  fixes k :: "'a \<Rightarrow> int"
  assumes sorted_eq: "sort_key k (filter Q xs) = best # rest"
    and low: "\<forall>x. \<not> Q x \<longrightarrow> k best < k x"
  shows "\<exists>pre post. xs = pre @ best # post
           \<and> (\<forall>x \<in> set pre. k best < k x) \<and> (\<forall>x \<in> set post. k best \<le> k x)
           \<and> set rest = {x \<in> set (pre @ post). Q x}
           \<and> (\<forall>x \<in> set rest. k (hd rest) \<le> k x)"
proof -
  have sorted: "sorted (map k (best # rest))"
    using sorted_sort_key [of k "filter Q xs"] sorted_eq by simp
  have perm: "mset (best # rest) = mset (filter Q xs)"
    using mset_sort [of k "filter Q xs"] sorted_eq by simp
  then have "best \<in> set (filter Q xs)" by (metis list.set_intros(1) mset_eq_setD)
  then have Qbest: "Q best" by simp
  have "filter (\<lambda>y. k y = k best) (filter Q xs) = filter (\<lambda>y. k y = k best) (best # rest)"
    using sort_key_stable [of k "k best" "filter Q xs"] sorted_eq by simp
  moreover have "filter (\<lambda>y. k y = k best) (filter Q xs) = filter (\<lambda>y. k y = k best) xs"
    unfolding filter_filter by (rule filter_cong [OF refl]) (use low in fastforce)
  ultimately have "filter (\<lambda>y. k y = k best) xs = best # filter (\<lambda>y. k y = k best) rest"
    by simp
  then obtain pre post where split: "xs = pre @ best # post" "\<forall>x \<in> set pre. k x \<noteq> k best"
    by (auto simp: filter_eq_Cons_iff)
  from perm split(1) Qbest have "mset rest = mset (filter Q (pre @ post))" by simp
  then have "set rest = set (filter Q (pre @ post))" by (rule mset_eq_setD)
  then have rest: "set rest = {x \<in> set (pre @ post). Q x}" by auto
  have all: "k best \<le> k x" if "x \<in> set (pre @ post)" for x
  proof (cases "Q x")
    case True
    with that rest have "x \<in> set rest" by blast
    with sorted show ?thesis by simp
  next
    case False
    with low show ?thesis by fastforce
  qed
  have pre: "\<forall>x \<in> set pre. k best < k x"
  proof
    fix x assume x: "x \<in> set pre"
    with all [of x] have "k best \<le> k x" by simp
    moreover from x split(2) have "k x \<noteq> k best" by blast
    ultimately show "k best < k x" by linarith
  qed
  have post: "\<forall>x \<in> set post. k best \<le> k x" using all by simp
  have second: "\<forall>x \<in> set rest. k (hd rest) \<le> k x"
  proof (cases rest)
    case Nil
    then show ?thesis by simp
  next
    case (Cons r rs)
    with sorted show ?thesis by simp
  qed
  show ?thesis
    by (rule exI [of _ pre], rule exI [of _ post]) (use split(1) pre post rest second in blast)
qed

lemma reaches_mono:
  "matches u qw p \<le> matches u qw q \<Longrightarrow> reaches u qw share p \<Longrightarrow> reaches u qw share q"
  by (simp add: reaches_def)

lemma reaches_positive:
  assumes "qw \<noteq> []" and "0 < share" and "reaches u qw share p"
  shows "0 < matches u qw p"
proof (rule ccontr)
  assume "\<not> 0 < matches u qw p"
  with assms(3) have "real (length qw) * share \<le> 0" by (simp add: reaches_def)
  moreover from assms(1,2) have "0 < real (length qw) * share" by simp
  ultimately show False by simp
qed

lemma paragraph_stage:
  assumes "qw \<noteq> []" and "p \<in> set ps" and "reaches u qw 0.5 p"
  shows "\<exists>pre best post.
           ps = pre @ best # post
         \<and> (\<forall>q \<in> set pre. matches u qw q < matches u qw best)
         \<and> (\<forall>q \<in> set post. matches u qw q \<le> matches u qw best)
         \<and> 0 < matches u qw best
         \<and> (if \<exists>q \<in> set (pre @ post). reaches u qw 0.3 q
            then \<exists>second \<in> set (pre @ post).
                   reaches u qw 0.3 second
                   \<and> (\<forall>q \<in> set (pre @ post). matches u qw q \<le> matches u qw second)
                   \<and> paragraph_answer qw (sort_desc (scored u qw ps))
                       = Some (py_strip u best @ blank_line @ py_strip u second)
            else paragraph_answer qw (sort_desc (scored u qw ps)) = Some (py_strip u best))"
proof -
  let ?k = "\<lambda>q. - int (matches u qw q)"
  let ?Q = "\<lambda>q. 0 < matches u qw q"
  have p_pos: "?Q p" by (rule reaches_positive [OF assms(1) _ assms(3)]) simp
  with assms(2) have "p \<in> set (ranked u qw ps)" by (simp add: ranked_def)
  then obtain best rest where ranked_eq: "ranked u qw ps = best # rest"
    by (cases "ranked u qw ps") auto
  then have "best \<in> set (ranked u qw ps)" by simp
  then have best_pos: "?Q best" by (simp add: ranked_def)
  then have low: "\<forall>x. \<not> ?Q x \<longrightarrow> ?k best < ?k x" by simp
  from sort_key_filter_head [of ?k ?Q ps best rest, OF ranked_eq [unfolded ranked_def] low]
  obtain pre post where split: "ps = pre @ best # post"
    and pre: "\<forall>x \<in> set pre. ?k best < ?k x"
    and post: "\<forall>x \<in> set post. ?k best \<le> ?k x"
    and rest: "set rest = {x \<in> set (pre @ post). ?Q x}"
    and second: "\<forall>x \<in> set rest. ?k (hd rest) \<le> ?k x"
    by blast
  from assms(2) split pre post have "matches u qw p \<le> matches u qw best" by auto
  then have best_half: "reaches u qw 0.5 best" using assms(3) by (rule reaches_mono)
  have answer: "paragraph_answer qw (sort_desc (scored u qw ps)) =
                  (case rest of
                     [] \<Rightarrow> Some (py_strip u best)
                   | r # rs \<Rightarrow> if reaches u qw 0.3 r
                              then Some (py_strip u best @ blank_line @ py_strip u r)
                              else Some (py_strip u best))"
    using best_half
    by (simp add: sort_desc_scored ranked_eq paragraph_answer_def reaches_def blank_line_def
          split: list.splits)
  have third: "(\<exists>q \<in> set (pre @ post). reaches u qw 0.3 q) = (rest \<noteq> [] \<and> reaches u qw 0.3 (hd rest))"
  proof
    assume "\<exists>q \<in> set (pre @ post). reaches u qw 0.3 q"
    then obtain q where q: "q \<in> set (pre @ post)" "reaches u qw 0.3 q" by blast
    have "?Q q" by (rule reaches_positive [OF assms(1) _ q(2)]) simp
    with q(1) rest have in_rest: "q \<in> set rest" by blast
    with second have "matches u qw q \<le> matches u qw (hd rest)" by auto
    then have "reaches u qw 0.3 (hd rest)" using q(2) by (rule reaches_mono)
    with in_rest show "rest \<noteq> [] \<and> reaches u qw 0.3 (hd rest)" by auto
  next
    assume "rest \<noteq> [] \<and> reaches u qw 0.3 (hd rest)"
    moreover then have "hd rest \<in> set (pre @ post)" using rest by (metis (mono_tags, lifting) hd_in_set mem_Collect_eq)
    ultimately show "\<exists>q \<in> set (pre @ post). reaches u qw 0.3 q" by blast
  qed
  have larger: "\<forall>q \<in> set (pre @ post). matches u qw q \<le> matches u qw (hd rest)" if "rest \<noteq> []"
  proof
    fix q assume q: "q \<in> set (pre @ post)"
    show "matches u qw q \<le> matches u qw (hd rest)"
    proof (cases "?Q q")
      case True
      with q rest have "q \<in> set rest" by blast
      with second show ?thesis by auto
    next
      case False
      then show ?thesis by simp
    qed
  qed
  have tail: "if \<exists>q \<in> set (pre @ post). reaches u qw 0.3 q
            then \<exists>second \<in> set (pre @ post).
                   reaches u qw 0.3 second
                   \<and> (\<forall>q \<in> set (pre @ post). matches u qw q \<le> matches u qw second)
                   \<and> paragraph_answer qw (sort_desc (scored u qw ps))
                       = Some (py_strip u best @ blank_line @ py_strip u second)
            else paragraph_answer qw (sort_desc (scored u qw ps)) = Some (py_strip u best)"
  proof (cases "rest \<noteq> [] \<and> reaches u qw 0.3 (hd rest)")
    case True
    then obtain r rs where r: "rest = r # rs" by (cases rest) auto
    with True answer have "paragraph_answer qw (sort_desc (scored u qw ps))
                             = Some (py_strip u best @ blank_line @ py_strip u r)" by simp
    moreover from r rest have "r \<in> set (pre @ post)" by auto
    moreover from r larger have "\<forall>q \<in> set (pre @ post). matches u qw q \<le> matches u qw r" by simp
    moreover from True r have "reaches u qw 0.3 r" by simp
    ultimately have found: "\<exists>second \<in> set (pre @ post).
                   reaches u qw 0.3 second
                   \<and> (\<forall>q \<in> set (pre @ post). matches u qw q \<le> matches u qw second)
                   \<and> paragraph_answer qw (sort_desc (scored u qw ps))
                       = Some (py_strip u best @ blank_line @ py_strip u second)" by blast
    from True third have yes: "\<exists>q \<in> set (pre @ post). reaches u qw 0.3 q" by blast
    show ?thesis unfolding if_P [OF yes] by (fact found)
  next
    case False
    with answer have alone: "paragraph_answer qw (sort_desc (scored u qw ps)) = Some (py_strip u best)"
      by (cases rest) auto
    from False third have no: "\<not> (\<exists>q \<in> set (pre @ post). reaches u qw 0.3 q)" by blast
    show ?thesis unfolding if_not_P [OF no] by (fact alone)
  qed
  have orders: "(\<forall>q \<in> set pre. matches u qw q < matches u qw best)"
               "(\<forall>q \<in> set post. matches u qw q \<le> matches u qw best)"
    using pre post by auto
  show ?thesis
    by (rule exI [of _ pre], rule exI [of _ best], rule exI [of _ post])
       (use split orders best_pos tail in blast)
qed

lemma get_ai_response_local:
  assumes "search_local_knowledge_base u file query = Some a" and "a \<noteq> []"
  shows "fst (snd (get_ai_response ops u s file api_key llm query user_id)) = a
       \<and> fst (snd (snd (get_ai_response ops u s file api_key llm query user_id))) = ''local''"
  using assms by (simp add: get_ai_response_def Let_def split: option.splits)

text \<open>
  C7, amended. Texts are sequences of Unicode code points, and the lowering and the
  whitespace test are those of the interpreter; all that is used of them is that
  lowering a text of whitespace alone gives whitespace alone. When the query has words
  and some paragraph of the corpus reaches half of them, the answer is local and starts
  with the first paragraph of the highest score, with its leading and trailing whitespace
  removed. If another paragraph reaches three tenths of the query words, the best of
  those follows after a blank line, stripped in the same way; otherwise the answer is the
  stripped top paragraph alone.
\<close>

theorem answer_returns_top_paragraph:
  assumes "\<forall>t. (\<forall>d \<in> set t. u_isspace u d) \<longrightarrow> (\<forall>c \<in> set (u_lower u t). u_isspace u c)"
    and "query_words_of u query \<noteq> []"
    and "p \<in> set (split_paragraphs [] content)"
    and "real (length (filter (\<lambda>w. contains w (u_lower u p)) (query_words_of u query)))
           \<ge> real (length (query_words_of u query)) * 0.5"
  shows "\<exists>pre best post a.
           split_paragraphs [] content = pre @ best # post
         \<and> (\<forall>q \<in> set pre. matches u (query_words_of u query) q < matches u (query_words_of u query) best)
         \<and> (\<forall>q \<in> set post. matches u (query_words_of u query) q \<le> matches u (query_words_of u query) best)
         \<and> search_local_knowledge_base u (Some content) query = Some a
         \<and> (if \<exists>q \<in> set (pre @ post). reaches u (query_words_of u query) 0.3 q
            then \<exists>second \<in> set (pre @ post).
                   reaches u (query_words_of u query) 0.3 second
                   \<and> (\<forall>q \<in> set (pre @ post).
                         matches u (query_words_of u query) q \<le> matches u (query_words_of u query) second)
                   \<and> a = py_strip u best @ blank_line @ py_strip u second
            else a = py_strip u best)
         \<and> fst (snd (get_ai_response ops u s (Some content) api_key llm query user_id)) = a
         \<and> fst (snd (snd (get_ai_response ops u s (Some content) api_key llm query user_id))) = ''local''"
proof -
  let ?qw = "query_words_of u query"
  let ?ps = "split_paragraphs [] content"
  have half: "reaches u ?qw 0.5 p"
    using assms(4) by (simp add: reaches_def matches_def)
  from paragraph_stage [OF assms(2,3) half]
  obtain pre best post where split: "?ps = pre @ best # post"
    and pre: "\<forall>q \<in> set pre. matches u ?qw q < matches u ?qw best"
    and post: "\<forall>q \<in> set post. matches u ?qw q \<le> matches u ?qw best"
    and pos: "0 < matches u ?qw best"
    and stage: "if \<exists>q \<in> set (pre @ post). reaches u ?qw 0.3 q
            then \<exists>second \<in> set (pre @ post).
                   reaches u ?qw 0.3 second
                   \<and> (\<forall>q \<in> set (pre @ post). matches u ?qw q \<le> matches u ?qw second)
                   \<and> paragraph_answer ?qw (sort_desc (scored u ?qw ?ps))
                       = Some (py_strip u best @ blank_line @ py_strip u second)
            else paragraph_answer ?qw (sort_desc (scored u ?qw ?ps)) = Some (py_strip u best)"
    by blast
  from stage obtain a where a: "paragraph_answer ?qw (sort_desc (scored u ?qw ?ps)) = Some a"
    by (auto split: if_splits)
  then have found: "search_local_knowledge_base u (Some content) query = Some a"
    by (simp add: search_local_knowledge_base_def Let_def)
  from stage a have shape: "if \<exists>q \<in> set (pre @ post). reaches u ?qw 0.3 q
            then \<exists>second \<in> set (pre @ post).
                   reaches u ?qw 0.3 second
                   \<and> (\<forall>q \<in> set (pre @ post). matches u ?qw q \<le> matches u ?qw second)
                   \<and> a = py_strip u best @ blank_line @ py_strip u second
            else a = py_strip u best"
    by (auto split: if_splits)
  have "py_strip u best \<noteq> []" using assms(1) pos by (rule matched_paragraph_not_blank)
  with shape have "a \<noteq> []" by (auto split: if_splits)
  with found have local: "fst (snd (get_ai_response ops u s (Some content) api_key llm query user_id)) = a
       \<and> fst (snd (snd (get_ai_response ops u s (Some content) api_key llm query user_id))) = ''local''"
    by (rule get_ai_response_local)
  show ?thesis
    by (rule exI [of _ pre], rule exI [of _ best], rule exI [of _ post], rule exI [of _ a])
       (use split pre post found shape local in blast)
qed

lemma ascii_blank:
  "\<forall>t. (\<forall>d \<in> set t. u_isspace ascii d) \<longrightarrow> (\<forall>c \<in> set (u_lower ascii t). u_isspace ascii c)"
  by (auto simp: ascii_def)

text \<open>
  C7 as stated fails on "verbatim": the paragraph of a one-line corpus that ends in a
  newline is returned without the newline.
\<close>

theorem answer_is_stripped:
  "query_words_of ascii (codes ''delivery free'') = [codes ''delivery'', codes ''free'']
   \<and> split_paragraphs [] (codes ''free delivery'' @ [10]) = [codes ''free delivery'' @ [10]]
   \<and> matches ascii [codes ''delivery'', codes ''free''] (codes ''free delivery'' @ [10]) = 2
   \<and> search_local_knowledge_base ascii (Some (codes ''free delivery'' @ [10])) (codes ''delivery free'')
        = Some (codes ''free delivery'')
   \<and> codes ''free delivery'' \<noteq> codes ''free delivery'' @ [10]"
  by (simp add: search_local_knowledge_base_def query_words_of_def py_split_def codes_def
        ascii_def stop_words_def scored_def matches_def sort_desc_def
        paragraph_answer_def py_strip_def)

theorem answer_returns_top_paragraph_witness:
  "query_words_of ascii (codes ''Is delivery free?'') = [codes ''delivery'', codes ''free?'']
   \<and> split_paragraphs [] corpus = [hours_text, delivery_text @ [10]]
   \<and> matches ascii [codes ''delivery'', codes ''free?''] hours_text = 0
   \<and> matches ascii [codes ''delivery'', codes ''free?''] (delivery_text @ [10]) = 1
   \<and> search_local_knowledge_base ascii (Some corpus) (codes ''Is delivery free?'')
        = Some delivery_text
   \<and> fst (snd (get_ai_response exact ascii empty_db (Some corpus) [] id
                   (codes ''Is delivery free?'') None)) = delivery_text
   \<and> fst (snd (snd (get_ai_response exact ascii empty_db (Some corpus) [] id
                        (codes ''Is delivery free?'') None))) = ''local''"
proof -
  let ?query = "codes ''Is delivery free?''"
  let ?qw = "[codes ''delivery'', codes ''free?'']"
  let ?p = "delivery_text @ [10]"
  have qw: "query_words_of ascii ?query = ?qw"
    by (simp add: query_words_of_def py_split_def codes_def ascii_def stop_words_def)
  have ps: "split_paragraphs [] corpus = [hours_text, ?p]"
    by (simp add: corpus_def hours_text_def delivery_text_def blank_line_def codes_def)
  have m0: "matches ascii ?qw hours_text = 0"
    by (simp add: matches_def hours_text_def codes_def ascii_def)
  have m1: "matches ascii ?qw ?p = 1"
    by (simp add: matches_def delivery_text_def codes_def ascii_def)
  have st: "py_strip ascii ?p = delivery_text"
    by (simp add: py_strip_def delivery_text_def codes_def ascii_def)
  have h: "query_words_of ascii ?query \<noteq> []"
          "?p \<in> set (split_paragraphs [] corpus)"
          "real (length (filter (\<lambda>w. contains w (u_lower ascii ?p)) (query_words_of ascii ?query)))
             \<ge> real (length (query_words_of ascii ?query)) * 0.5"
    using m1 by (simp_all add: qw ps matches_def)
  from answer_returns_top_paragraph [OF ascii_blank h, of exact empty_db "[]" id None]
  obtain pre best post a where
    split: "split_paragraphs [] corpus = pre @ best # post"
    and post: "\<forall>q \<in> set post. matches ascii (query_words_of ascii ?query) q
                                  \<le> matches ascii (query_words_of ascii ?query) best"
    and found: "search_local_knowledge_base ascii (Some corpus) ?query = Some a"
    and shape: "if \<exists>q \<in> set (pre @ post). reaches ascii (query_words_of ascii ?query) 0.3 q
            then \<exists>second \<in> set (pre @ post).
                   reaches ascii (query_words_of ascii ?query) 0.3 second
                   \<and> (\<forall>q \<in> set (pre @ post).
                         matches ascii (query_words_of ascii ?query) q
                           \<le> matches ascii (query_words_of ascii ?query) second)
                   \<and> a = py_strip ascii best @ blank_line @ py_strip ascii second
            else a = py_strip ascii best"
    and local: "fst (snd (get_ai_response exact ascii empty_db (Some corpus) [] id ?query None)) = a"
               "fst (snd (snd (get_ai_response exact ascii empty_db (Some corpus) [] id ?query None))) = ''local''"
    by blast
  from split ps have "pre = [] \<and> best = hours_text \<and> post = [?p]
                      \<or> pre = [hours_text] \<and> best = ?p \<and> post = []"
    by (auto simp: Cons_eq_append_conv)
  with post m0 m1 have where_best: "pre = [hours_text]" "best = ?p" "post = []"
    by (auto simp: qw)
  have "\<not> reaches ascii ?qw 0.3 hours_text" by (simp add: reaches_def m0)
  with shape where_best st have "a = delivery_text" by (simp add: qw)
  with qw ps m0 m1 found local show ?thesis by simp
qed

end
